theory Spec2Isabelle
  imports Complex_Main "HOL-Library.Word"
begin

section \<open>Values of the Go runtime used by the agent\<close>

type_synonym int64 = "64 word"

text \<open>
  A Go \<open>float64\<close>. A finite value \<open>Finite m e\<close> stands for \<open>m * 2 ^ e\<close>; the sign of
  a zero is not kept (no operation below reads it).
\<close>

datatype float64 = Finite int int | PosInf | NegInf | NaN

definition float_val :: "int \<Rightarrow> int \<Rightarrow> rat" where
  "float_val m e = (if 0 \<le> e then of_int (m * 2 ^ nat e) else of_int m / of_int (2 ^ nat (- e)))"

text \<open>Truncation towards zero of \<open>m * 2 ^ e\<close>.\<close>

definition trunc_float :: "int \<Rightarrow> int \<Rightarrow> int" where
  "trunc_float m e = (if 0 \<le> e then m * 2 ^ nat e else sgn m * (\<bar>m\<bar> div 2 ^ nat (- e)))"

text \<open>Truncation towards zero and rounding to the nearest integer (half away from zero,
  as Go's \<open>math.Round\<close>) of a rational.\<close>

definition trunc_rat :: "rat \<Rightarrow> int" where
  "trunc_rat x = (if 0 \<le> x then \<lfloor>x\<rfloor> else - \<lfloor>- x\<rfloor>)"

definition round_rat :: "rat \<Rightarrow> int" where
  "round_rat x = (if 0 \<le> x then \<lfloor>x + 1 / 2\<rfloor> else - \<lfloor>- x + 1 / 2\<rfloor>)"

text \<open>
  \<open>math.Modf\<close>: the integer and the fractional part, both with the sign of the argument.
\<close>

definition Modf :: "float64 \<Rightarrow> float64 \<times> float64" where
  "Modf x = (case x of
      Finite m e \<Rightarrow>
        if 0 \<le> e then (Finite m e, Finite 0 0)
        else (Finite (sgn m * (\<bar>m\<bar> div 2 ^ nat (- e))) 0,
              Finite (sgn m * (\<bar>m\<bar> mod 2 ^ nat (- e))) e)
    | PosInf \<Rightarrow> (PosInf, NaN)
    | NegInf \<Rightarrow> (NegInf, NaN)
    | NaN \<Rightarrow> (NaN, NaN))"

text \<open>The number of binary digits of a natural number.\<close>

fun bit_length :: "nat \<Rightarrow> nat" where
  "bit_length n = (if n = 0 then 0 else Suc (bit_length (n div 2)))"

declare bit_length.simps [simp del]

text \<open>
  Rounding \<open>m * 2 ^ e\<close> to a float64: to 53 significant bits and to a multiple of
  \<open>2 ^ -1074\<close>, ties to even; a magnitude of \<open>2 ^ 1024\<close> or more becomes an infinity.
\<close>

definition round_float :: "int \<Rightarrow> int \<Rightarrow> float64" where
  "round_float m e =
     (let k = max (int (bit_length (nat \<bar>m\<bar>)) - 53) (- 1074 - e) in
      if k \<le> 0 then
        (if e + int (bit_length (nat \<bar>m\<bar>)) > 1024 then (if 0 < m then PosInf else NegInf)
         else Finite m e)
      else
        (let d = 2 ^ nat k; q = \<bar>m\<bar> div d; r = \<bar>m\<bar> mod d;
             q' = (if 2 * r > d \<or> (2 * r = d \<and> odd q) then q + 1 else q)
         in if e + k + int (bit_length (nat q')) > 1024 then (if 0 < m then PosInf else NegInf)
            else Finite (sgn m * q') (e + k)))"

text \<open>The float64 product \<open>x * y\<close>.\<close>

definition fmul :: "float64 \<Rightarrow> float64 \<Rightarrow> float64" where
  "fmul x y = (case (x, y) of
      (Finite m1 e1, Finite m2 e2) \<Rightarrow> round_float (m1 * m2) (e1 + e2)
    | (NaN, _) \<Rightarrow> NaN
    | (_, NaN) \<Rightarrow> NaN
    | (Finite m e, PosInf) \<Rightarrow> (if m = 0 then NaN else if 0 < m then PosInf else NegInf)
    | (Finite m e, NegInf) \<Rightarrow> (if m = 0 then NaN else if 0 < m then NegInf else PosInf)
    | (PosInf, Finite m e) \<Rightarrow> (if m = 0 then NaN else if 0 < m then PosInf else NegInf)
    | (NegInf, Finite m e) \<Rightarrow> (if m = 0 then NaN else if 0 < m then NegInf else PosInf)
    | (PosInf, PosInf) \<Rightarrow> PosInf
    | (NegInf, NegInf) \<Rightarrow> PosInf
    | (PosInf, NegInf) \<Rightarrow> NegInf
    | (NegInf, PosInf) \<Rightarrow> NegInf)"

text \<open>
  The conversion \<open>int64(x)\<close> of a float64: the fraction is discarded (truncation towards
  zero). Where the truncated value is no int64 (and for an infinity or a NaN) the Go
  specification leaves the result to the implementation: \<open>oor\<close> is that choice.
\<close>

definition int64_of_float :: "(float64 \<Rightarrow> int64) \<Rightarrow> float64 \<Rightarrow> int64" where
  "int64_of_float oor x = (case x of
      Finite m e \<Rightarrow>
        (let t = trunc_float m e
         in if - (2 ^ 63) \<le> t \<and> t < 2 ^ 63 then word_of_int t else oor x)
    | _ \<Rightarrow> oor x)"

section \<open>strconv.ParseInt, strings.SplitN and copy\<close>

datatype num_error = ErrSyntax | ErrRange

definition is_digit :: "char \<Rightarrow> bool" where
  "is_digit c = (48 \<le> (of_char c :: nat) \<and> (of_char c :: nat) \<le> 57)"

definition digit_val :: "char \<Rightarrow> nat" where
  "digit_val c = of_char c - 48"

text \<open>
  The digit loop of \<open>strconv.ParseUint(s, 10, 64)\<close>: a character that is no decimal
  digit is a syntax error, a value of \<open>2 ^ 64\<close> or more a range error, whichever the scan
  meets first.
\<close>

fun parse_uint_loop :: "nat \<Rightarrow> string \<Rightarrow> num_error + nat" where
  "parse_uint_loop n [] = Inr n"
| "parse_uint_loop n (c # cs) =
     (if \<not> is_digit c then Inl ErrSyntax
      else if n * 10 + digit_val c \<ge> 2 ^ 64 then Inl ErrRange
      else parse_uint_loop (n * 10 + digit_val c) cs)"

definition ParseUint :: "string \<Rightarrow> num_error + nat" where
  "ParseUint s = (if s = [] then Inl ErrSyntax else parse_uint_loop 0 s)"

text \<open>\<open>strconv.ParseInt(s, 10, 64)\<close>: an optional sign, then decimal digits.\<close>

definition ParseInt :: "string \<Rightarrow> num_error + int64" where
  "ParseInt s =
     (case s of
        [] \<Rightarrow> Inl ErrSyntax
      | c # cs \<Rightarrow>
          (let neg = (c = CHR ''-'');
               ds = (if c = CHR ''+'' \<or> c = CHR ''-'' then cs else s)
           in case ParseUint ds of
                Inl e \<Rightarrow> Inl e
              | Inr un \<Rightarrow>
                  if \<not> neg \<and> un \<ge> 2 ^ 63 then Inl ErrRange
                  else if neg \<and> un > 2 ^ 63 then Inl ErrRange
                  else Inr (if neg then - word_of_nat un else word_of_nat un)))"

text \<open>\<open>strings.Index\<close> for a separator of one byte.\<close>

fun index_byte :: "char \<Rightarrow> string \<Rightarrow> nat option" where
  "index_byte c [] = None"
| "index_byte c (x # xs) =
     (if x = c then Some 0 else map_option Suc (index_byte c xs))"

text \<open>\<open>strings.SplitN(s, sep, 2)\<close> for a separator of one byte: at most one cut, at the
  first occurrence.\<close>

definition SplitN2 :: "string \<Rightarrow> char \<Rightarrow> string list" where
  "SplitN2 s sep = (case index_byte sep s of
      None \<Rightarrow> [s]
    | Some m \<Rightarrow> [take m s, drop (Suc m) s])"

text \<open>The builtin \<open>copy(dst, src)\<close>: the first \<open>min (len dst) (len src)\<close> bytes of \<open>dst\<close>
  are overwritten.\<close>

definition copy_bytes :: "string \<Rightarrow> string \<Rightarrow> string" where
  "copy_bytes dst src = take (length dst) src @ drop (length src) dst"

section \<open>internal.ParseTimestamp\<close>

datatype ts_error =
    ErrParseInt string num_error
  | ErrUnsupportedType
  | ErrLoadLocation string
  | ErrParseLayout

text \<open>The dynamic value handed in as \<open>timestamp interface{}\<close>.\<close>

datatype timestamp = TString string | TInt64 int64 | TFloat64 float64 | TOther

definition parseUnixTimeComponents :: "string \<Rightarrow> string \<Rightarrow> ts_error + int64 \<times> int64" where
  "parseUnixTimeComponents first second =
     (case ParseInt first of
        Inl e \<Rightarrow> Inl (ErrParseInt first e)
      | Inr integer \<Rightarrow>
          (let buf = copy_bytes ''000000000'' second
           in case ParseInt buf of
                Inl e \<Rightarrow> Inl (ErrParseInt buf e)
              | Inr fractional \<Rightarrow> Inr (integer, fractional)))"

definition parseComponents :: "(float64 \<Rightarrow> int64) \<Rightarrow> timestamp \<Rightarrow> ts_error + int64 \<times> int64" where
  "parseComponents oor timestamp =
     (case timestamp of
        TString ts \<Rightarrow>
          (case SplitN2 ts (CHR ''.'') of
             [p0, p1] \<Rightarrow> parseUnixTimeComponents p0 p1
           | _ \<Rightarrow>
              (case SplitN2 ts (CHR '','') of
                 [p0, p1] \<Rightarrow> parseUnixTimeComponents p0 p1
               | _ \<Rightarrow>
                  (case ParseInt ts of
                     Inl e \<Rightarrow> Inl (ErrParseInt ts e)
                   | Inr integer \<Rightarrow> Inr (integer, 0))))
      | TInt64 ts \<Rightarrow> Inr (ts, 0)
      | TFloat64 ts \<Rightarrow>
          (let (integer, fractional) = Modf ts
           in Inr (int64_of_float oor integer,
                   int64_of_float oor (fmul fractional (Finite 1000000000 0))))
      | TOther \<Rightarrow> Inl ErrUnsupportedType)"

text \<open>
  A \<open>time.Time\<close>: seconds since the Unix epoch (an int64 in Go), nanoseconds within the
  second, and the location the instant is presented in.
\<close>

datatype location = UTC | Local | Zone string

record time =
  unix_sec :: int64
  nanos :: int
  loc :: location

text \<open>Go's integer division truncates towards zero.\<close>

definition tdiv :: "int \<Rightarrow> int \<Rightarrow> int" where
  "tdiv a b = sgn a * sgn b * (\<bar>a\<bar> div \<bar>b\<bar>)"

text \<open>\<open>time.Unix(sec, nsec)\<close>: \<open>nsec\<close> outside \<open>[0, 999999999]\<close> is carried into the
  seconds; int64 arithmetic wraps.\<close>

definition time_Unix :: "int64 \<Rightarrow> int64 \<Rightarrow> time" where
  "time_Unix sec nsec =
     (let n = sint nsec in
      if n < 0 \<or> n \<ge> 1000000000 then
        (let q = tdiv n 1000000000;
             sec1 = sec + word_of_int q;
             n1 = n - q * 1000000000
         in if n1 < 0 then \<lparr>unix_sec = sec1 - 1, nanos = n1 + 1000000000, loc = Local\<rparr>
            else \<lparr>unix_sec = sec1, nanos = n1, loc = Local\<rparr>)
      else \<lparr>unix_sec = sec, nanos = n, loc = Local\<rparr>)"

definition to_UTC :: "time \<Rightarrow> time" where
  "to_UTC t = t\<lparr>loc := UTC\<rparr>"

text \<open>The instant of a time, in nanoseconds since the Unix epoch.\<close>

definition instant_ns :: "time \<Rightarrow> int" where
  "instant_ns t = sint (unix_sec t) * 1000000000 + nanos t"

text \<open>\<open>strings.ToLower\<close> on ASCII.\<close>

definition lower_char :: "char \<Rightarrow> char" where
  "lower_char c = (if 65 \<le> (of_char c :: nat) \<and> (of_char c :: nat) \<le> 90
                   then char_of ((of_char c :: nat) + 32) else c)"

definition ToLower :: "string \<Rightarrow> string" where
  "ToLower s = map lower_char s"

definition parseUnix :: "(float64 \<Rightarrow> int64) \<Rightarrow> string \<Rightarrow> timestamp \<Rightarrow> ts_error + time" where
  "parseUnix oor format timestamp =
     (case parseComponents oor timestamp of
        Inl e \<Rightarrow> Inl e
      | Inr (integer, fractional) \<Rightarrow>
          (let f = ToLower format in
           if f = ''unix'' then Inr (to_UTC (time_Unix integer fractional))
           else if f = ''unix_ms'' then Inr (to_UTC (time_Unix 0 (integer * 1000000)))
           else if f = ''unix_us'' then Inr (to_UTC (time_Unix 0 (integer * 1000)))
           else if f = ''unix_ns'' then Inr (to_UTC (time_Unix 0 integer))
           else Inl ErrUnsupportedType))"

text \<open>
  \<open>parseTime\<close> calls \<open>time.LoadLocation\<close> and \<open>time.ParseInLocation\<close> of the Go library:
  they are the parameters \<open>loadLocation\<close> and \<open>parseInLocation\<close>.
\<close>

definition parseTime ::
  "(string \<Rightarrow> location option) \<Rightarrow> (string \<Rightarrow> string \<Rightarrow> location \<Rightarrow> time option) \<Rightarrow>
   string \<Rightarrow> timestamp \<Rightarrow> string \<Rightarrow> ts_error + time" where
  "parseTime loadLocation parseInLocation format timestamp location =
     (case timestamp of
        TString ts \<Rightarrow>
          (case loadLocation location of
             None \<Rightarrow> Inl (ErrLoadLocation location)
           | Some l \<Rightarrow>
              (case parseInLocation format ts l of
                 None \<Rightarrow> Inl ErrParseLayout
               | Some t \<Rightarrow> Inr t))
      | _ \<Rightarrow> Inl ErrUnsupportedType)"

definition ParseTimestamp ::
  "(float64 \<Rightarrow> int64) \<Rightarrow> (string \<Rightarrow> location option) \<Rightarrow>
   (string \<Rightarrow> string \<Rightarrow> location \<Rightarrow> time option) \<Rightarrow>
   string \<Rightarrow> timestamp \<Rightarrow> string \<Rightarrow> ts_error + time" where
  "ParseTimestamp oor loadLocation parseInLocation format timestamp location =
     (if format = ''unix'' \<or> format = ''unix_ms'' \<or> format = ''unix_us'' \<or> format = ''unix_ns''
      then parseUnix oor format timestamp
      else parseTime loadLocation parseInLocation format timestamp
             (if location = [] then ''UTC'' else location))"

subsection \<open>The decomposition of a string timestamp, as the specification words it\<close>

text \<open>
  The cut at the first \<open>.\<close> or, when there is none, at the first \<open>,\<close>: the segment
  before the separator and the segment after it.
\<close>

definition first_separator :: "string \<Rightarrow> (string \<times> string) option" where
  "first_separator ts =
     (if CHR ''.'' \<in> set ts
      then Some (takeWhile (\<lambda>c. c \<noteq> CHR ''.'') ts, tl (dropWhile (\<lambda>c. c \<noteq> CHR ''.'') ts))
      else if CHR '','' \<in> set ts
      then Some (takeWhile (\<lambda>c. c \<noteq> CHR '','') ts, tl (dropWhile (\<lambda>c. c \<noteq> CHR '','') ts))
      else None)"

text \<open>Right-padding with zeros to 9 characters.\<close>

definition pad9 :: "string \<Rightarrow> string" where
  "pad9 s = s @ replicate (9 - length s) (CHR ''0'')"

text \<open>
  The decomposition of a string with a separator: the left segment read as an int64,
  the nanosecond field \<open>field r\<close> made from the right segment \<open>r\<close> read as an int64.
  \<open>None\<close> when the string has no separator.
\<close>

definition decompose :: "(string \<Rightarrow> string) \<Rightarrow> string \<Rightarrow> (ts_error + int64 \<times> int64) option" where
  "decompose field ts =
     (case first_separator ts of
        None \<Rightarrow> None
      | Some (l, r) \<Rightarrow> Some
          (case ParseInt l of
             Inl e \<Rightarrow> Inl (ErrParseInt l e)
           | Inr i \<Rightarrow>
              (case ParseInt (field r) of
                 Inl e \<Rightarrow> Inl (ErrParseInt (field r) e)
               | Inr f \<Rightarrow> Inr (i, f))))"

text \<open>As stated: the right segment is right-padded to 9 characters and parsed.\<close>

definition DecomposeFraction_stated :: "string \<Rightarrow> (ts_error + int64 \<times> int64) option" where
  "DecomposeFraction_stated = decompose pad9"

text \<open>As the code does it: the right segment is first cut to its leading 9 characters.\<close>

definition DecomposeFraction_leading9 :: "string \<Rightarrow> (ts_error + int64 \<times> int64) option" where
  "DecomposeFraction_leading9 = decompose (\<lambda>r. pad9 (take 9 r))"


section \<open>internal.SetVersion and internal.Version\<close>

text \<open>
  The package variable \<open>version\<close> is the state; it starts as the empty string, the zero
  value of a Go string. \<open>SetVersion\<close> returns its error and the new state.
\<close>

datatype version_error = ErrVersionAlreadySet

definition initial_version :: string where
  "initial_version = []"

definition SetVersion :: "string \<Rightarrow> string \<Rightarrow> version_error option \<times> string" where
  "SetVersion v version =
     (if version \<noteq> [] then (Some ErrVersionAlreadySet, version) else (None, v))"

definition Version :: "string \<Rightarrow> string" where
  "Version version = version"

section \<open>internal.Duration.UnmarshalTOML\<close>

text \<open>\<open>bytes.Trim(b, "'")\<close>: the single quotes at both ends are cut off.\<close>

definition trim_quotes :: "string \<Rightarrow> string" where
  "trim_quotes b =
     rev (dropWhile (\<lambda>c. c = CHR 0x27) (rev (dropWhile (\<lambda>c. c = CHR 0x27) b)))"

text \<open>
  \<open>UnmarshalTOML\<close> calls \<open>time.ParseDuration\<close>, \<open>strconv.Unquote\<close> and
  \<open>strconv.ParseFloat\<close> of the Go library: they are the parameters \<open>parseDuration\<close>
  (the duration in nanoseconds, an int64), \<open>unquote\<close> and \<open>parseFloat\<close>, with \<open>None\<close>
  for a returned error. The result is the returned error and the new \<open>d.Duration\<close>;
  a failed \<open>time.ParseDuration\<close> returns the duration 0, which the code assigns.
\<close>

definition UnmarshalTOML ::
  "(float64 \<Rightarrow> int64) \<Rightarrow> (string \<Rightarrow> int64 option) \<Rightarrow> (string \<Rightarrow> string option) \<Rightarrow>
   (string \<Rightarrow> float64 option) \<Rightarrow> string \<Rightarrow> unit option \<times> int64" where
  "UnmarshalTOML oor parseDuration unquote parseFloat b0 =
     (let b = trim_quotes b0 in
      case parseDuration b of
        Some d \<Rightarrow> (None, d)
      | None \<Rightarrow>
         (case (case unquote b of
                  Some uq \<Rightarrow> if length uq > 0 then parseDuration uq else None
                | None \<Rightarrow> None) of
            Some d \<Rightarrow> (None, d)
          | None \<Rightarrow>
             (case ParseInt b of
                Inr sI \<Rightarrow> (None, 1000000000 * sI)
              | Inl _ \<Rightarrow>
                 (case parseFloat b of
                    Some sF \<Rightarrow> (None, 1000000000 * int64_of_float oor sF)
                  | None \<Rightarrow> (None, 0)))))"

subsection \<open>The order of interpretations, as the specification words it\<close>

text \<open>The first interpretation of a list that succeeds.\<close>

fun first_success :: "'a option list \<Rightarrow> 'a option" where
  "first_success [] = None"
| "first_success (None # xs) = first_success xs"
| "first_success (Some x # xs) = Some x"

text \<open>A whole number of seconds as a duration in nanoseconds (an int64 product).\<close>

definition whole_seconds :: "int64 \<Rightarrow> int64" where
  "whole_seconds n = 1000000000 * n"

text \<open>
  The behaviour of the Go library on the literals of the examples below (\<open>None\<close>
  elsewhere): \<open>time.ParseDuration\<close> accepts \<open>1s\<close>, \<open>500ms\<close> and \<open>1.5s\<close> (one and a half
  seconds) and refuses \<open>10\<close>, \<open>1.5\<close>, \<open>0.5\<close> (no unit) and \<open>"1s"\<close> (with its double
  quotes); \<open>strconv.Unquote\<close> turns \<open>"1s"\<close> into \<open>1s\<close> and refuses the unquoted literals;
  \<open>strconv.ParseFloat\<close> reads \<open>1.5\<close>, \<open>0.5\<close> and \<open>10\<close> as the float64 of that value.
\<close>

definition sample_ParseDuration :: "string \<Rightarrow> int64 option" where
  "sample_ParseDuration s =
     (if s = ''1s'' then Some 1000000000
      else if s = ''500ms'' then Some 500000000
      else if s = ''1.5s'' then Some 1500000000
      else None)"

definition sample_Unquote :: "string \<Rightarrow> string option" where
  "sample_Unquote s = (if s = [CHR 0x22, CHR ''1'', CHR ''s'', CHR 0x22] then Some ''1s'' else None)"

definition sample_ParseFloat :: "string \<Rightarrow> float64 option" where
  "sample_ParseFloat s =
     (if s = ''1.5'' then Some (Finite 3 (- 1))
      else if s = ''0.5'' then Some (Finite 1 (- 1))
      else if s = ''10'' then Some (Finite 10 0)
      else None)"


section \<open>plugins/inputs/postgresql\_extensible\<close>

subsection \<open>Values, rows and the database\<close>

text \<open>
  The dynamic value of a column (an \<open>interface{}\<close> filled by \<open>Scan\<close>): \<open>nil\<close>, a
  value of one of the Go types the code and the specification tell apart, or a value of
  any other Go type (\<open>VOther\<close>).
\<close>

datatype raw_value =
    Null
  | VBool bool
  | VInt64 int64
  | VInt32 "32 word"
  | VInt int64
  | VFloat64 float64
  | VString string
  | VBytes string
  | VOther

text \<open>What \<open>acc.AddFields(measName, fields, tags)\<close> receives.\<close>

record metric =
  m_name :: string
  m_fields :: "string \<rightharpoonup> raw_value"
  m_tags :: "string \<rightharpoonup> string"

text \<open>The calls to \<open>p.Log\<close>: \<open>Error\<close> with a message, and the two \<open>Debugf\<close> lines of
  \<open>accRow\<close> (the column with its value, the failure to add a tag).\<close>

datatype log_entry = LogError string | DebugColumn string raw_value | DebugTagFailed string

text \<open>
  A row of a result set, as \<open>Scan\<close> finds it: one the driver cannot deliver (with its
  error), or the values of its columns.
\<close>

datatype row = ScanError string | Row "raw_value list"

text \<open>The \<open>*sql.Rows\<close> of a query: what \<open>Columns()\<close> returns, and the rows \<open>Next()\<close>
  steps through.\<close>

record result_set =
  rs_columns :: "string + string list"
  rs_rows :: "row list"

text \<open>
  The database behind \<open>p.DB\<close>, with a state \<open>'db\<close> of its own: \<open>QueryRow\<close> is
  \<open>DB.QueryRow(query).Scan(&dbVersion)\<close> (an error or the integer scanned),
  \<open>QueryRows\<close> is \<open>DB.Query(query)\<close> (an error or the rows).
\<close>

record 'db source =
  QueryRow :: "'db \<Rightarrow> string \<Rightarrow> (string + int) \<times> 'db"
  QueryRows :: "'db \<Rightarrow> string \<Rightarrow> (string + result_set) \<times> 'db"

text \<open>An element of \<open>p.Query\<close>.\<close>

record query =
  Sqlquery :: string
  Script :: string
  Version_query :: int
  Withdbname :: bool
  Tagvalue :: string
  Measurement :: string

text \<open>
  The plugin's configuration. \<open>SanitizedAddress\<close> is what the method of that name of the
  embedded \<open>postgresql.Service\<close> returns (an error or the address).
\<close>

record Postgresql =
  Databases :: "string list"
  Query :: "query list"
  SanitizedAddress :: "string + string"

text \<open>
  What a collection cycle changes: the database, the field \<open>p.AdditionalTags\<close>, the log
  and the accumulator.
\<close>

record 'db gather_state =
  DB :: 'db
  AdditionalTags :: "string list"
  logs :: "log_entry list"
  accum :: "metric list"

definition ignoredColumns :: "string set" where
  "ignoredColumns = {''stats_reset''}"

subsection \<open>Formatting and splitting\<close>

text \<open>\<open>fmt.Sprintf("%d", v)\<close>: the decimal digits, with a minus sign for a negative value.\<close>

fun digits_of :: "nat \<Rightarrow> string" where
  "digits_of n =
     (if n < 10 then [''0123456789'' ! n]
      else digits_of (n div 10) @ [''0123456789'' ! (n mod 10)])"

declare digits_of.simps [simp del]

definition show_int :: "int \<Rightarrow> string" where
  "show_int i = (if i < 0 then CHR ''-'' # digits_of (nat (- i)) else digits_of (nat i))"

text \<open>\<open>strings.Join\<close>.\<close>

fun Join :: "string list \<Rightarrow> string \<Rightarrow> string" where
  "Join [] sep = []"
| "Join [x] sep = x"
| "Join (x # y # ys) sep = x @ sep @ Join (y # ys) sep"

text \<open>\<open>strings.Split\<close> for a separator of one byte: the pieces between all occurrences.\<close>

fun Split :: "string \<Rightarrow> char \<Rightarrow> string list" where
  "Split [] sep = [[]]"
| "Split (x # xs) sep =
     (if x = sep then [] # Split xs sep
      else (case Split xs sep of p # ps \<Rightarrow> (x # p) # ps | [] \<Rightarrow> [[x]]))"

subsection \<open>accRow\<close>

text \<open>
  \<open>columnMap\<close> after the first loop: every column name is a key, its cell holds \<open>nil\<close>.
\<close>

definition new_columnMap :: "string list \<Rightarrow> (string \<rightharpoonup> raw_value)" where
  "new_columnMap columns = (\<lambda>c. if c \<in> set columns then Some Null else None)"

text \<open>
  \<open>columnVars\<close>: the cells of \<open>columns[0]\<close>, ..., \<open>columns[len(columnMap) - 1]\<close>, each
  named here by its column. \<open>len(columnMap)\<close> is the number of distinct column names.
\<close>

definition columnVars :: "string list \<Rightarrow> string list" where
  "columnVars columns = take (length (remdups columns)) columns"

text \<open>
  \<open>row.Scan(columnVars...)\<close> of \<open>database/sql\<close>: the driver's error; an error when the
  number of destinations is not the number of values; else the values are stored into the
  destinations, in order (\<open>assign\<close> stores one value into the cell of its column).
\<close>

definition assign :: "string \<times> raw_value \<Rightarrow> (string \<rightharpoonup> raw_value) \<Rightarrow> (string \<rightharpoonup> raw_value)" where
  "assign d columnMap = columnMap(fst d \<mapsto> snd d)"

definition Scan :: "row \<Rightarrow> string list \<Rightarrow> (string \<rightharpoonup> raw_value) \<Rightarrow> string + (string \<rightharpoonup> raw_value)" where
  "Scan r dests columnMap =
     (case r of
        ScanError e \<Rightarrow> Inl e
      | Row vs \<Rightarrow>
          if length dests \<noteq> length vs
          then Inl (''sql: expected '' @ show_int (int (length vs)) @
                    '' destination arguments in Scan, not '' @ show_int (int (length dests)))
          else Inr (fold assign (zip dests vs) columnMap))"

text \<open>
  One round of the loop labelled \<open>COLUMN\<close>, for the key \<open>col\<close> of \<open>columnMap\<close>. The inner
  loop over \<open>p.AdditionalTags\<close> acts at the first tag equal to \<open>col\<close> and then continues
  with the next column: it acts exactly when \<open>col\<close> is among the tags.
\<close>

definition column_step ::
  "string list \<Rightarrow> (string \<rightharpoonup> raw_value) \<Rightarrow> string \<Rightarrow>
   (string \<rightharpoonup> string) \<times> (string \<rightharpoonup> raw_value) \<times> log_entry list \<Rightarrow>
   (string \<rightharpoonup> string) \<times> (string \<rightharpoonup> raw_value) \<times> log_entry list" where
  "column_step additionalTags columnMap col s =
     (case s of (tgs, flds, lg) \<Rightarrow>
      (let val = (case columnMap col of Some v \<Rightarrow> v | None \<Rightarrow> Null);
           lg1 = lg @ [DebugColumn col val]
       in if col \<in> ignoredColumns \<or> val = Null then (tgs, flds, lg1)
          else if col \<in> set additionalTags then
            (case val of
               VString v \<Rightarrow> (tgs(col \<mapsto> v), flds, lg1)
             | VBytes v \<Rightarrow> (tgs(col \<mapsto> v), flds, lg1)
             | VInt64 v \<Rightarrow> (tgs(col \<mapsto> show_int (sint v)), flds, lg1)
             | VInt32 v \<Rightarrow> (tgs(col \<mapsto> show_int (sint v)), flds, lg1)
             | VInt v \<Rightarrow> (tgs(col \<mapsto> show_int (sint v)), flds, lg1)
             | _ \<Rightarrow> (tgs, flds, lg1 @ [DebugTagFailed col]))
          else
            (case val of
               VBytes v \<Rightarrow> (tgs, flds(col \<mapsto> VString v), lg1)
             | _ \<Rightarrow> (tgs, flds(col \<mapsto> val), lg1))))"

text \<open>
  \<open>accRow\<close>: the returned error and the new state. Go ranges over the keys of
  \<open>columnMap\<close> in an order of its choice; the model takes the distinct column names in
  the order of \<open>remdups\<close>.
\<close>

definition accRow ::
  "Postgresql \<Rightarrow> string \<Rightarrow> row \<Rightarrow> string list \<Rightarrow> 'db gather_state \<Rightarrow>
   string option \<times> 'db gather_state" where
  "accRow p measName r columns st =
     (case Scan r (columnVars columns) (new_columnMap columns) of
        Inl e \<Rightarrow> (Some (''row scan: '' @ e), st)
      | Inr columnMap \<Rightarrow>
          (let dbname = (case columnMap ''datname'' of
                           Some (VString datname) \<Rightarrow> datname
                         | _ \<Rightarrow> ''postgres'')
           in case SanitizedAddress p of
                Inl e \<Rightarrow> (Some (''sanitize addr: '' @ e), st)
              | Inr tagAddress \<Rightarrow>
                  (case fold (column_step (AdditionalTags st) columnMap) (remdups columns)
                          ([''server'' \<mapsto> tagAddress, ''db'' \<mapsto> dbname], Map.empty, []) of
                     (tgs, flds, lg) \<Rightarrow>
                       (None, st\<lparr>logs := logs st @ lg,
                                 accum := accum st @
                                   [\<lparr>m_name = measName, m_fields = flds, m_tags = tgs\<rparr>]\<rparr>))))"

subsection \<open>Gather\<close>

definition version_query :: string where
  "version_query =
     ''SELECT setting::integer / 100 AS version FROM pg_settings WHERE name = '' @
     [CHR 0x27] @ ''server_version_num'' @ [CHR 0x27]"

definition queryAddon :: "Postgresql \<Rightarrow> query \<Rightarrow> string" where
  "queryAddon p q =
     (if Withdbname q then
        (if length (Databases p) \<noteq> 0
         then '' IN ('' @ [CHR 0x27] @ Join (Databases p) [CHR 0x27, CHR '','', CHR 0x27] @
              [CHR 0x27] @ '')''
         else '' is not null'')
      else [])"

text \<open>The loop \<open>for rows.Next()\<close>: it stops at the first row for which \<open>accRow\<close>
  returns an error, which is logged.\<close>

fun acc_rows ::
  "Postgresql \<Rightarrow> string \<Rightarrow> string list \<Rightarrow> row list \<Rightarrow> 'db gather_state \<Rightarrow> 'db gather_state" where
  "acc_rows p measName columns [] st = st"
| "acc_rows p measName columns (r # rs) st =
     (case accRow p measName r columns st of
        (Some e, st') \<Rightarrow> st'\<lparr>logs := logs st' @ [LogError e]\<rparr>
      | (None, st') \<Rightarrow> acc_rows p measName columns rs st')"

text \<open>One round of the loop over \<open>p.Query\<close>.\<close>

definition gather_query ::
  "Postgresql \<Rightarrow> 'db source \<Rightarrow> int \<Rightarrow> query \<Rightarrow> 'db gather_state \<Rightarrow> 'db gather_state" where
  "gather_query p src dbVersion q st =
     (let sqlQuery = Sqlquery q @ queryAddon p q;
          tagValue = Tagvalue q;
          measName = (if Measurement q \<noteq> [] then Measurement q else ''postgresql'')
      in if Version_query q \<le> dbVersion then
           (case QueryRows src (DB st) sqlQuery of
              (Inl e, db') \<Rightarrow> st\<lparr>DB := db', logs := logs st @ [LogError e]\<rparr>
            | (Inr rows, db') \<Rightarrow>
                (case rs_columns rows of
                   Inl e \<Rightarrow> st\<lparr>DB := db', logs := logs st @ [LogError e]\<rparr>
                 | Inr columns \<Rightarrow>
                     acc_rows p measName columns (rs_rows rows)
                       (st\<lparr>DB := db',
                           AdditionalTags :=
                             (if tagValue \<noteq> [] then Split tagValue (CHR '','') else [])\<rparr>)))
         else st)"

fun gather_queries ::
  "Postgresql \<Rightarrow> 'db source \<Rightarrow> int \<Rightarrow> query list \<Rightarrow> 'db gather_state \<Rightarrow> 'db gather_state" where
  "gather_queries p src dbVersion [] st = st"
| "gather_queries p src dbVersion (q # qs) st =
     gather_queries p src dbVersion qs (gather_query p src dbVersion q st)"

text \<open>
  \<open>Gather\<close>: the returned error and the new state. The deferred \<open>rows.Close()\<close> calls
  run when \<open>Gather\<close> returns; they change nothing of this state and are left out.
\<close>

definition Gather ::
  "Postgresql \<Rightarrow> 'db source \<Rightarrow> 'db gather_state \<Rightarrow> string option \<times> 'db gather_state" where
  "Gather p src st =
     (case QueryRow src (DB st) version_query of
        (r, db') \<Rightarrow>
          (let dbVersion = (case r of Inl e \<Rightarrow> 0 | Inr v \<Rightarrow> v)
           in (None, gather_queries p src dbVersion (Query p) (st\<lparr>DB := db'\<rparr>))))"


subsection \<open>The classification of a column, as the specification words it\<close>

text \<open>The value in the cell of a column (\<open>nil\<close> for a name that is no column).\<close>

definition cell :: "(string \<rightharpoonup> raw_value) \<Rightarrow> string \<Rightarrow> raw_value" where
  "cell columnMap c = (case columnMap c of Some v \<Rightarrow> v | None \<Rightarrow> Null)"

text \<open>The tag made of a value: the string, the bytes as a string, the decimal form of an
  integer; none of a float or a bool.\<close>

fun tag_value :: "raw_value \<Rightarrow> string option" where
  "tag_value (VString s) = Some s"
| "tag_value (VBytes s) = Some s"
| "tag_value (VInt64 i) = Some (show_int (sint i))"
| "tag_value (VInt32 i) = Some (show_int (sint i))"
| "tag_value (VInt i) = Some (show_int (sint i))"
| "tag_value (VFloat64 x) = None"
| "tag_value (VBool b) = None"
| "tag_value VOther = None"
| "tag_value Null = None"

text \<open>The field made of a value: bytes become a string, every other value is kept.\<close>

fun field_value :: "raw_value \<Rightarrow> raw_value" where
  "field_value (VBytes s) = VString s"
| "field_value v = v"

subsection \<open>A sample database\<close>

text \<open>
  A plugin whose address is \<open>host=localhost\<close>, and a database for the examples below. Its
  state counts the queries it has run. \<open>SELECT broken\<close> fails; \<open>SELECT a\<close> has one row
  with the columns \<open>host\<close>, \<open>value\<close> and \<open>secret\<close>; \<open>SELECT b\<close> has three rows of one
  column, the second of which cannot be scanned. The version query fails in
  \<open>sample_unreachable\<close> and gives 900 in \<open>sample_source\<close>.
\<close>

definition sample_rows :: "string \<Rightarrow> string + result_set" where
  "sample_rows q =
     (if q = ''SELECT a''
      then Inr \<lparr>rs_columns = Inr [''host'', ''value'', ''secret''],
                rs_rows = [Row [VString ''a'', VInt64 42, Null]]\<rparr>
      else if q = ''SELECT b''
      then Inr \<lparr>rs_columns = Inr [''n''],
                rs_rows = [Row [VInt64 1], ScanError ''bad row'', Row [VInt64 3]]\<rparr>
      else Inl ''syntax error'')"

definition sample_source :: "nat source" where
  "sample_source =
     \<lparr>QueryRow = (\<lambda>db q. (Inr 900, Suc db)), QueryRows = (\<lambda>db q. (sample_rows q, Suc db))\<rparr>"

definition sample_unreachable :: "nat source" where
  "sample_unreachable =
     \<lparr>QueryRow = (\<lambda>db q. (Inl ''connection refused'', Suc db)),
      QueryRows = (\<lambda>db q. (sample_rows q, Suc db))\<rparr>"

definition sample_query :: "string \<Rightarrow> int \<Rightarrow> string \<Rightarrow> query" where
  "sample_query text minVersion tagValue =
     \<lparr>Sqlquery = text, Script = [], Version_query = minVersion, Withdbname = False,
      Tagvalue = tagValue, Measurement = []\<rparr>"

definition sample_plugin :: "query list \<Rightarrow> Postgresql" where
  "sample_plugin qs = \<lparr>Databases = [], Query = qs, SanitizedAddress = Inr ''host=localhost''\<rparr>"

definition sample_state :: "string list \<Rightarrow> nat gather_state" where
  "sample_state tags = \<lparr>DB = 0, AdditionalTags = tags, logs = [], accum = []\<rparr>"



section \<open>Properties of the timestamp parser\<close>

subsection \<open>Signed 64-bit arithmetic\<close>

lemma sint_word_of_int_64:
  "- 9223372036854775808 \<le> x \<Longrightarrow> x < 9223372036854775808 \<Longrightarrow> sint (word_of_int x :: int64) = x"
  by (simp add: sint_sbintrunc' signed_take_bit_int_eq_self)

lemma sint_64_bounds:
  "- 9223372036854775808 \<le> sint (w :: int64) \<and> sint w < 9223372036854775808"
  using sint_ge [of w] sint_lt [of w] by simp

lemma sint_dec_64:
  assumes "- 9223372036854775808 < x" and "x < 9223372036854775808"
  shows "sint ((word_of_int x :: int64) - 1) = x - 1"
proof -
  have "sint (word_of_int (x - 1) :: int64) = x - 1"
    using assms by (intro sint_word_of_int_64) auto
  moreover have "(word_of_int x :: int64) - 1 = word_of_int (x - 1)" by simp
  ultimately show ?thesis by (simp only:)
qed

lemma sint_mult_64:
  assumes "- 9223372036854775808 \<le> sint (a :: int64) * k" and "sint a * k < 9223372036854775808"
  shows "sint (a * word_of_int k) = sint a * k"
proof -
  have "a * word_of_int k = word_of_int (sint a * k)" by simp
  then show ?thesis using assms sint_word_of_int_64 [of "sint a * k"] by (simp only:)
qed

lemma tdiv_neg: "m < 0 \<Longrightarrow> tdiv m 1000000000 = - ((- m) div 1000000000)"
  by (simp add: tdiv_def)

lemma tdiv_pos: "0 \<le> m \<Longrightarrow> tdiv m 1000000000 = m div 1000000000"
  by (simp add: tdiv_def sgn_if)

text \<open>\<open>time.Unix(0, n)\<close> is the instant \<open>n\<close> nanoseconds from the epoch, for every int64.\<close>

lemma instant_time_Unix_0: "instant_ns (time_Unix 0 n) = sint n"
proof -
  define m where "m = sint n"
  have b: "- 9223372036854775808 \<le> m" "m < 9223372036854775808"
    using sint_64_bounds [of n] by (simp_all add: m_def)
  consider "0 \<le> m \<and> m < 1000000000" | "1000000000 \<le> m" | "m < 0" by linarith
  then show ?thesis
  proof cases
    case 1
    then show ?thesis by (simp add: time_Unix_def instant_ns_def m_def [symmetric])
  next
    case 2
    define q where "q = m div 1000000000"
    have q: "tdiv m 1000000000 = q" using 2 by (simp add: tdiv_pos q_def)
    have qb: "0 \<le> q" "q < 9223372037" using 2 b by (auto simp: q_def)
    have r: "0 \<le> m - q * 1000000000" unfolding q_def
      using 2 by (simp add: minus_mult_div_eq_mod)
    show ?thesis using 2 q qb r
      by (simp add: time_Unix_def instant_ns_def m_def [symmetric] Let_def sint_word_of_int_64)
  next
    case 3
    define q where "q = (- m) div 1000000000"
    have q: "tdiv m 1000000000 = - q" using 3 by (simp add: tdiv_neg q_def)
    have qb: "0 \<le> q" "q < 9223372037" using 3 b by (auto simp: q_def)
    have dm: "- m = q * 1000000000 + (- m) mod 1000000000" by (simp add: q_def)
    have r: "m + q * 1000000000 \<le> 0" using dm
      by (smt (verit) pos_mod_sign)
    show ?thesis
    proof (cases "m + q * 1000000000 < 0")
      case True
      have s: "sint ((word_of_int (- q) :: int64) - 1) = - q - 1"
        using qb by (intro sint_dec_64) auto
      show ?thesis using 3 q True s
        by (simp add: time_Unix_def instant_ns_def m_def [symmetric] Let_def)
    next
      case False
      then have z: "m + q * 1000000000 = 0" using r by linarith
      have s: "sint (word_of_int (- q) :: int64) = - q"
        using qb by (intro sint_word_of_int_64) auto
      show ?thesis using 3 q False z s
        by (simp add: time_Unix_def instant_ns_def m_def [symmetric] Let_def)
    qed
  qed
qed

subsection \<open>The sub-second Unix formats\<close>

text \<open>
  C1 (as amended). For every timestamp whose decomposition succeeds with integer part
  \<open>i\<close>, \<open>ParseTimestamp\<close> with \<open>unix_ms\<close>, \<open>unix_us\<close> or \<open>unix_ns\<close> succeeds, for any
  location string, with a time in UTC whose instant is the int64 product \<open>i * 1000000\<close>,
  \<open>i * 1000\<close> or \<open>i\<close> nanoseconds from the epoch; the fractional part \<open>f\<close> is not used.
  The int64 product wraps around: the instant is the exact product
  \<open>sint i * 1000000\<close> (or \<open>sint i * 1000\<close>) whenever that product is an int64.
\<close>

theorem ParseTimestamp_unix_precisions:
  assumes "parseComponents oor ts = Inr (i, f)"
  shows "(\<exists>t. ParseTimestamp oor ll pl ''unix_ms'' ts l = Inr t \<and> loc t = UTC \<and>
              instant_ns t = sint (i * 1000000) \<and>
              (- (2 ^ 63) \<le> sint i * 1000000 \<and> sint i * 1000000 < 2 ^ 63 \<longrightarrow>
                 instant_ns t = sint i * 1000000)) \<and>
         (\<exists>t. ParseTimestamp oor ll pl ''unix_us'' ts l = Inr t \<and> loc t = UTC \<and>
              instant_ns t = sint (i * 1000) \<and>
              (- (2 ^ 63) \<le> sint i * 1000 \<and> sint i * 1000 < 2 ^ 63 \<longrightarrow>
                 instant_ns t = sint i * 1000)) \<and>
         (\<exists>t. ParseTimestamp oor ll pl ''unix_ns'' ts l = Inr t \<and> loc t = UTC \<and>
              instant_ns t = sint i)"
proof -
  have utc: "\<And>t. loc (to_UTC t) = UTC" "\<And>t. instant_ns (to_UTC t) = instant_ns t"
    by (simp_all add: to_UTC_def instant_ns_def)
  have ms: "ParseTimestamp oor ll pl ''unix_ms'' ts l = Inr (to_UTC (time_Unix 0 (i * 1000000)))"
    using assms by (simp add: ParseTimestamp_def parseUnix_def ToLower_def lower_char_def)
  have us: "ParseTimestamp oor ll pl ''unix_us'' ts l = Inr (to_UTC (time_Unix 0 (i * 1000)))"
    using assms by (simp add: ParseTimestamp_def parseUnix_def ToLower_def lower_char_def)
  have ns: "ParseTimestamp oor ll pl ''unix_ns'' ts l = Inr (to_UTC (time_Unix 0 i))"
    using assms by (simp add: ParseTimestamp_def parseUnix_def ToLower_def lower_char_def)
  have m1: "- (2 ^ 63) \<le> sint i * 1000000 \<and> sint i * 1000000 < 2 ^ 63 \<longrightarrow>
      sint (i * 1000000) = sint i * 1000000"
    using sint_mult_64 [of i 1000000] by simp
  have m2: "- (2 ^ 63) \<le> sint i * 1000 \<and> sint i * 1000 < 2 ^ 63 \<longrightarrow>
      sint (i * 1000) = sint i * 1000"
    using sint_mult_64 [of i 1000] by simp
  show ?thesis
    using m1 m2 by (simp add: ms us ns utc instant_time_Unix_0)
qed

text \<open>
  The int64 \<open>1000\<close> with \<open>unix_ms\<close>, under any location string: one second past the epoch,
  in UTC.
\<close>

theorem ParseTimestamp_unix_precisions_witness:
  "\<forall>oor ll pl l. \<exists>t. ParseTimestamp oor ll pl ''unix_ms'' (TInt64 1000) l = Inr t \<and> loc t = UTC \<and>
      instant_ns t = 1000000000"
  using ParseTimestamp_unix_precisions [of _ "TInt64 1000" 1000 0]
  by (simp add: parseComponents_def)

text \<open>
  C1 as stated fails where the product leaves the int64 range: the int64
  \<open>9223372036854775807\<close> with \<open>unix_ms\<close> gives the instant one millisecond before the
  epoch, not \<open>9223372036854775807 * 1000000\<close> nanoseconds after it.
\<close>

theorem ParseTimestamp_unix_ms_wraps:
  "(\<forall>oor ll pl l. ParseTimestamp oor ll pl ''unix_ms'' (TInt64 9223372036854775807) l
      = Inr \<lparr>unix_sec = - 1, nanos = 999000000, loc = UTC\<rparr>) \<and>
   instant_ns \<lparr>unix_sec = - 1, nanos = 999000000, loc = UTC\<rparr> = - 1000000 \<and>
   instant_ns \<lparr>unix_sec = - 1, nanos = 999000000, loc = UTC\<rparr>
     \<noteq> sint (9223372036854775807 :: int64) * 1000000"
  by (simp add: ParseTimestamp_def parseUnix_def parseComponents_def ToLower_def lower_char_def
      time_Unix_def tdiv_def to_UTC_def instant_ns_def)

subsection \<open>The decomposition of a string with a separator\<close>

lemma replicate_numeral_unfold: "replicate (numeral k) x = x # replicate (pred_numeral k) x"
  by (simp add: numeral_eq_Suc)

lemma index_byte_None: "index_byte c s = None \<longleftrightarrow> c \<notin> set s"
  by (induction s) auto

lemma index_byte_Some:
  "index_byte c s = Some m \<Longrightarrow>
     take m s = takeWhile (\<lambda>x. x \<noteq> c) s \<and> drop (Suc m) s = tl (dropWhile (\<lambda>x. x \<noteq> c) s)"
  by (induction s arbitrary: m) (auto split: if_splits)

lemma SplitN2_absent: "c \<notin> set s \<Longrightarrow> SplitN2 s c = [s]"
  by (simp add: SplitN2_def index_byte_None [THEN iffD2])

lemma SplitN2_present:
  assumes "c \<in> set s"
  shows "SplitN2 s c = [takeWhile (\<lambda>x. x \<noteq> c) s, tl (dropWhile (\<lambda>x. x \<noteq> c) s)]"
proof -
  obtain m where m: "index_byte c s = Some m"
    using assms index_byte_None [of c s] by (cases "index_byte c s") auto
  then show ?thesis using index_byte_Some [OF m] by (simp add: SplitN2_def)
qed

lemma copy_bytes_nine: "copy_bytes ''000000000'' r = pad9 (take 9 r)"
proof -
  have "drop (length r) (replicate 9 (CHR ''0'')) = replicate (9 - length r) (CHR ''0'')"
    by simp
  moreover have "''000000000'' = replicate 9 (CHR ''0'')"
    by (simp add: numeral_eq_Suc)
  ultimately show ?thesis
    by (simp add: copy_bytes_def pad9_def min_def)
qed

text \<open>
  C2 (as amended). For every string timestamp that contains a separator,
  \<open>parseComponents\<close> cuts at the first \<open>.\<close> or, when there is none, at the first \<open>,\<close>;
  the left segment is read as a signed decimal int64, and the right segment is cut to its
  leading 9 characters, right-padded with zeros to 9 characters and read as the nanosecond
  count.
\<close>

theorem parseComponents_separator:
  assumes "CHR ''.'' \<in> set ts \<or> CHR '','' \<in> set ts"
  shows "Some (parseComponents oor (TString ts)) = DecomposeFraction_leading9 ts"
proof (cases "CHR ''.'' \<in> set ts")
  case True
  then show ?thesis
    by (simp add: parseComponents_def SplitN2_present parseUnixTimeComponents_def
        DecomposeFraction_leading9_def decompose_def first_separator_def copy_bytes_nine Let_def
        split: sum.splits)
next
  case False
  with assms have c: "CHR '','' \<in> set ts" by simp
  show ?thesis using False c
    by (simp add: parseComponents_def SplitN2_present SplitN2_absent parseUnixTimeComponents_def
        DecomposeFraction_leading9_def decompose_def first_separator_def copy_bytes_nine Let_def
        split: sum.splits)
qed

text \<open>The two examples of the specification: \<open>42.5\<close> and \<open>42,500\<close>.\<close>

theorem parseComponents_separator_witness:
  "(CHR ''.'' \<in> set ''42.5'' \<or> CHR '','' \<in> set ''42.5'') \<and>
   (\<forall>oor. parseComponents oor (TString ''42.5'') = Inr (42, 500000000)) \<and>
   (\<forall>oor. parseComponents oor (TString ''42,500'') = Inr (42, 500000000))"
  using parseComponents_separator [of "''42.5''"] parseComponents_separator [of "''42,500''"]
  by (simp add: DecomposeFraction_leading9_def decompose_def first_separator_def pad9_def
      ParseInt_def ParseUint_def is_digit_def digit_val_def replicate_numeral_unfold)

text \<open>
  C2 as stated fails on a right segment of more than 9 characters: padding leaves it as it
  is, so the stated decomposition of \<open>42.1234567891\<close> has the nanosecond count
  \<open>1234567891\<close>, where the code keeps the leading 9 digits, \<open>123456789\<close>.
\<close>

theorem DecomposeFraction_long_fraction:
  "(\<forall>oor. parseComponents oor (TString ''42.1234567891'') = Inr (42, 123456789)) \<and>
   DecomposeFraction_stated ''42.1234567891'' = Some (Inr (42, 1234567891)) \<and>
   (\<forall>oor. Some (parseComponents oor (TString ''42.1234567891''))
      \<noteq> DecomposeFraction_stated ''42.1234567891'')"
  by (simp add: DecomposeFraction_stated_def decompose_def first_separator_def pad9_def
      parseComponents_def SplitN2_def parseUnixTimeComponents_def ParseInt_def ParseUint_def
      is_digit_def digit_val_def copy_bytes_def replicate_numeral_unfold)

section \<open>Properties of the float64 decomposition\<close>

lemma trunc_rat_of_int [simp]: "trunc_rat (of_int k) = k"
  by (simp add: trunc_rat_def)

lemma trunc_float_rat: "trunc_float m e = trunc_rat (float_val m e)"
proof (cases "0 \<le> e")
  case True
  then show ?thesis by (simp add: trunc_float_def float_val_def del: of_int_mult of_int_power)
next
  case False
  define d :: int where "d = 2 ^ nat (- e)"
  have d: "0 < d" by (simp add: d_def)
  have fl: "\<And>a::int. \<lfloor>(of_int a :: rat) / of_int d\<rfloor> = a div d"
    by (simp add: floor_divide_of_int_eq)
  show ?thesis
  proof (cases "0 \<le> m")
    case True
    then have "0 \<le> (of_int m :: rat) / of_int d" using d by simp
    then show ?thesis using False True fl [of m]
      by (simp add: trunc_float_def float_val_def trunc_rat_def d_def [symmetric] sgn_if del: of_int_power)
  next
    case m: False
    define x :: rat where "x = of_int m / of_int d"
    have neg: "x < 0" using m d by (simp add: x_def divide_neg_pos)
    have "- x = of_int (- m) / of_int d" by (simp add: x_def)
    then have "\<lfloor>- x\<rfloor> = (- m) div d" using fl [of "- m"] by (simp only:)
    then have "trunc_rat x = - ((- m) div d)" using neg by (simp add: trunc_rat_def)
    moreover have "float_val m e = x" using False by (simp add: float_val_def x_def d_def)
    moreover have "trunc_float m e = - ((- m) div d)"
      using False m by (simp add: trunc_float_def d_def)
    ultimately show ?thesis by simp
  qed
qed

lemma bit_length_gt: "n < 2 ^ bit_length n"
proof (induction n rule: bit_length.induct)
  case (1 n)
  show ?case
  proof (cases "n = 0")
    case True
    then show ?thesis by (simp add: bit_length.simps)
  next
    case False
    then have "n div 2 < 2 ^ bit_length (n div 2)" using 1 by simp
    then have "n < 2 * 2 ^ bit_length (n div 2)" by linarith
    then show ?thesis using False by (subst bit_length.simps) simp
  qed
qed

lemma bit_length_le: "n < 2 ^ j \<Longrightarrow> bit_length n \<le> j"
proof (induction n arbitrary: j rule: bit_length.induct)
  case (1 n)
  show ?case
  proof (cases "n = 0")
    case True
    then show ?thesis by (simp add: bit_length.simps)
  next
    case False
    then obtain j' where j: "j = Suc j'" using 1(2) by (cases j) auto
    then have "n div 2 < 2 ^ j'" using 1(2) by auto
    then have "bit_length (n div 2) \<le> j'" using 1(1) False by simp
    then show ?thesis using False j by (subst bit_length.simps) simp
  qed
qed

lemma int_div_less:
  assumes "(a::int) < b * c" and "0 < c"
  shows "a div c < b"
proof -
  have "a = c * (a div c) + a mod c" by simp
  moreover have "0 \<le> a mod c" using assms(2) by simp
  ultimately have "c * (a div c) \<le> a" by linarith
  then have "c * (a div c) < c * b" using assms(1) by (simp add: mult.commute)
  then show ?thesis using assms(2) by (simp add: mult_less_cancel_left_pos)
qed

lemma abs_trunc_float_le: "e \<le> 0 \<Longrightarrow> \<bar>trunc_float m e\<bar> \<le> \<bar>m\<bar> div 2 ^ nat (- e)"
  by (cases "e = 0") (auto simp: trunc_float_def abs_mult sgn_if pos_imp_zdiv_nonneg_iff)

lemma Modf_fraction:
  "\<exists>im ie fm fe. Modf (Finite m e) = (Finite im ie, Finite fm fe) \<and>
     trunc_float im ie = trunc_float m e \<and>
     float_val fm fe = float_val m e - of_int (trunc_float m e) \<and>
     fe \<le> 0 \<and> \<bar>fm\<bar> < 2 ^ nat (- fe)"
proof (cases "0 \<le> e")
  case True
  then show ?thesis
    by (simp add: Modf_def float_val_def trunc_float_def del: of_int_mult of_int_power)
next
  case False
  define d :: int where "d = 2 ^ nat (- e)"
  have d: "0 < d" by (simp add: d_def)
  have md: "\<bar>m\<bar> = d * (\<bar>m\<bar> div d) + \<bar>m\<bar> mod d" by simp
  have "(of_int (sgn m * (\<bar>m\<bar> mod d)) :: rat) = of_int m - of_int (sgn m * (\<bar>m\<bar> div d)) * of_int d"
  proof -
    have "sgn m * (\<bar>m\<bar> mod d) = m - (sgn m * (\<bar>m\<bar> div d)) * d"
    proof (cases "m < 0")
      case True
      have "- m = d * ((- m) div d) + (- m) mod d" by simp
      then have "- ((- m) mod d) = m + d * ((- m) div d)" by linarith
      then show ?thesis using True by (simp add: sgn_if algebra_simps)
    next
      case False
      have "m = d * (m div d) + m mod d" by simp
      then have "m mod d = m - d * (m div d)" by linarith
      then show ?thesis using False by (simp add: sgn_if algebra_simps)
    qed
    then show ?thesis by (simp only: of_int_diff [symmetric] of_int_mult [symmetric])
  qed
  then have v: "(of_int (sgn m * (\<bar>m\<bar> mod d)) :: rat) / of_int d
      = of_int m / of_int d - of_int (sgn m * (\<bar>m\<bar> div d))"
    using d by (simp add: field_simps)
  have b: "\<bar>sgn m * (\<bar>m\<bar> mod d)\<bar> < d"
    using d by (simp add: abs_mult sgn_if)
  show ?thesis using False v b
    by (simp add: Modf_def float_val_def trunc_float_def d_def [symmetric] abs_mult
        del: of_int_mult of_int_power)
qed

lemma bit_length_int_gt: "\<bar>M\<bar> < 2 ^ bit_length (nat \<bar>M\<bar>)"
proof -
  have "int (nat \<bar>M\<bar>) < int (2 ^ bit_length (nat \<bar>M\<bar>))"
    using bit_length_gt [of "nat \<bar>M\<bar>"] by (simp only: of_nat_less_iff)
  then show ?thesis by simp
qed

lemma nonneg_div_le_self: "0 \<le> (a::int) \<Longrightarrow> 0 < c \<Longrightarrow> a div c \<le> a"
  by (metis div_0 int_div_le_self leI nle_le)

lemma round_float_small:
  assumes e: "e \<le> 0" and M: "\<bar>M\<bar> < 1000000000 * 2 ^ nat (- e)"
  shows "\<exists>pm pe. round_float M e = Finite pm pe \<and> \<bar>trunc_float pm pe\<bar> \<le> 2 ^ 53"
proof -
  define B where "B = int (bit_length (nat \<bar>M\<bar>))"
  define k where "k = max (B - 53) (- 1074 - e)"
  have "\<bar>M\<bar> < 2 ^ 30 * 2 ^ nat (- e)"
  proof -
    have "(1000000000::int) * 2 ^ nat (- e) \<le> 2 ^ 30 * 2 ^ nat (- e)"
      by (intro mult_right_mono) simp_all
    then show ?thesis using M by linarith
  qed
  then have "\<bar>M\<bar> < 2 ^ (30 + nat (- e))" by (simp add: power_add)
  then have "nat \<bar>M\<bar> < 2 ^ (30 + nat (- e))"
    by (simp add: nat_less_iff)
  then have "bit_length (nat \<bar>M\<bar>) \<le> 30 + nat (- e)" by (rule bit_length_le)
  then have B: "B \<le> 30 - e" using e by (simp add: B_def)
  have ek: "e + k < 0" using B e by (simp add: k_def max_def)
  show ?thesis
  proof (cases "k \<le> 0")
    case True
    have "round_float M e = Finite M e"
      using True B e by (simp add: round_float_def Let_def k_def [symmetric] B_def [symmetric])
    moreover have "\<bar>trunc_float M e\<bar> \<le> 2 ^ 53"
    proof -
      have "\<bar>M\<bar> div 2 ^ nat (- e) < 1000000000"
        using M by (intro int_div_less) simp_all
      then show ?thesis using abs_trunc_float_le [OF e, of M] by simp
    qed
    ultimately show ?thesis by blast
  next
    case False
    define d :: int where "d = 2 ^ nat k"
    define q where "q = \<bar>M\<bar> div d"
    define q' where "q' = (if 2 * (\<bar>M\<bar> mod d) > d \<or> (2 * (\<bar>M\<bar> mod d) = d \<and> odd q) then q + 1 else q)"
    have d: "0 < d" by (simp add: d_def)
    have "B \<le> k + 53" by (simp add: k_def)
    then have "bit_length (nat \<bar>M\<bar>) \<le> 53 + nat k" using False by (simp add: B_def)
    then have "(2::int) ^ bit_length (nat \<bar>M\<bar>) \<le> 2 ^ (53 + nat k)"
      by (intro power_increasing) simp_all
    then have "\<bar>M\<bar> < 2 ^ 53 * d" using bit_length_int_gt [of M] by (simp add: d_def power_add)
    then have q: "q < 2 ^ 53" unfolding q_def using d by (intro int_div_less) simp_all
    have q0: "0 \<le> q" using d by (simp add: q_def pos_imp_zdiv_nonneg_iff)
    have q': "0 \<le> q'" "q' \<le> 2 ^ 53" using q q0 by (auto simp: q'_def)
    have "nat q' < 2 ^ 54" using q' by (simp add: nat_less_iff)
    then have "bit_length (nat q') \<le> 54" by (rule bit_length_le)
    then have nov: "\<not> e + k + int (bit_length (nat q')) > 1024" using ek by simp
    have "round_float M e =
        (if k \<le> 0 then
           (if e + B > 1024 then (if 0 < M then PosInf else NegInf) else Finite M e)
         else if e + k + int (bit_length (nat q')) > 1024
           then (if 0 < M then PosInf else NegInf)
           else Finite (sgn M * q') (e + k))"
      unfolding round_float_def Let_def q'_def q_def d_def k_def B_def by (rule refl)
    then have "round_float M e = Finite (sgn M * q') (e + k)"
      using False nov by simp
    moreover have "\<bar>trunc_float (sgn M * q') (e + k)\<bar> \<le> 2 ^ 53"
    proof -
      have "\<bar>trunc_float (sgn M * q') (e + k)\<bar> \<le> \<bar>sgn M * q'\<bar> div 2 ^ nat (- (e + k))"
        using ek by (intro abs_trunc_float_le) simp
      also have "\<dots> \<le> \<bar>sgn M * q'\<bar>"
        by (intro nonneg_div_le_self) simp_all
      also have "\<dots> \<le> q'" using q' by (simp add: abs_mult sgn_if)
      finally show ?thesis using q' by simp
    qed
    ultimately show ?thesis by blast
  qed
qed

lemma int64_of_float_in_range:
  assumes "\<bar>trunc_float pm pe\<bar> \<le> 2 ^ 53"
  shows "sint (int64_of_float oor (Finite pm pe)) = trunc_float pm pe"
proof -
  have "- 9223372036854775808 \<le> trunc_float pm pe" "trunc_float pm pe < 9223372036854775808"
    using assms by simp_all
  then show ?thesis
    by (simp add: int64_of_float_def Let_def sint_sbintrunc' signed_take_bit_int_eq_self)
qed

text \<open>
  C3 (as amended). For every finite float64 timestamp whose truncation is an int64, the
  integer part is the value truncated towards zero, and the fractional nanosecond part is
  the float64 product of the fractional part (the value minus its truncation) and \<open>1e9\<close>,
  truncated towards zero by the conversion to int64: it is not rounded to the nearest
  nanosecond.
\<close>

theorem parseComponents_float:
  assumes "- (2 ^ 63) \<le> trunc_rat (float_val m e)" and "trunc_rat (float_val m e) < 2 ^ 63"
  shows "\<exists>i f fm fe pm pe.
     parseComponents oor (TFloat64 (Finite m e)) = Inr (i, f) \<and>
     sint i = trunc_rat (float_val m e) \<and>
     float_val fm fe = float_val m e - of_int (trunc_rat (float_val m e)) \<and>
     fmul (Finite fm fe) (Finite 1000000000 0) = Finite pm pe \<and>
     sint f = trunc_rat (float_val pm pe)"
proof -
  obtain im ie fm fe where mf: "Modf (Finite m e) = (Finite im ie, Finite fm fe)"
    and it: "trunc_float im ie = trunc_float m e"
    and fv: "float_val fm fe = float_val m e - of_int (trunc_float m e)"
    and fe: "fe \<le> 0" and fm: "\<bar>fm\<bar> < 2 ^ nat (- fe)"
    using Modf_fraction [of m e] by blast
  have "\<bar>fm * 1000000000\<bar> < 1000000000 * 2 ^ nat (- fe)"
    using fm by (simp add: abs_mult)
  then obtain pm pe where p: "round_float (fm * 1000000000) fe = Finite pm pe"
    and pr: "\<bar>trunc_float pm pe\<bar> \<le> 2 ^ 53"
    using round_float_small [OF fe] by blast
  have pf: "fmul (Finite fm fe) (Finite 1000000000 0) = Finite pm pe"
    using p by (simp add: fmul_def)
  have i: "sint (int64_of_float oor (Finite im ie)) = trunc_rat (float_val m e)"
    using assms it
    by (simp add: int64_of_float_def Let_def trunc_float_rat [symmetric]
        sint_sbintrunc' signed_take_bit_int_eq_self)
  have f: "sint (int64_of_float oor (Finite pm pe)) = trunc_rat (float_val pm pe)"
    using int64_of_float_in_range [OF pr] by (simp add: trunc_float_rat)
  have "parseComponents oor (TFloat64 (Finite m e))
      = Inr (int64_of_float oor (Finite im ie), int64_of_float oor (Finite pm pe))"
    by (simp add: parseComponents_def mf pf)
  then show ?thesis using i f fv pf by (auto simp: trunc_float_rat)
qed

lemma trunc_rat_divide:
  "0 \<le> a \<Longrightarrow> 0 < b \<Longrightarrow> trunc_rat (of_int a / of_int b) = a div b"
  by (simp add: trunc_rat_def floor_divide_of_int_eq)

lemma round_rat_divide:
  assumes "0 \<le> a" and "0 < b"
  shows "round_rat (of_int a / of_int b) = (2 * a + b) div (2 * b)"
proof -
  have "(of_int a :: rat) / of_int b + 1 / 2 = of_int (2 * a + b) / of_int (2 * b)"
    using assms by (simp add: field_simps)
  then have "\<lfloor>(of_int a :: rat) / of_int b + 1 / 2\<rfloor> = (2 * a + b) div (2 * b)"
    by (simp only: floor_divide_of_int_eq)
  then show ?thesis using assms by (simp add: round_rat_def)
qed

lemma float_val_three_halves: "float_val 3 (- 1) = of_int 3 / of_int 2"
  by (simp add: float_val_def)

lemma float_val_2_pow_minus_30: "float_val 1 (- 30) = of_int 1 / of_int 1073741824"
  by (simp add: float_val_def)

text \<open>The float64 \<open>1.5\<close>: integer part 1, fractional part 500000000 ns.\<close>

theorem parseComponents_float_witness:
  "- (2 ^ 63) \<le> trunc_rat (float_val 3 (- 1)) \<and> trunc_rat (float_val 3 (- 1)) < 2 ^ 63 \<and>
   trunc_rat (float_val 3 (- 1)) = 1 \<and>
   (\<forall>oor. parseComponents oor (TFloat64 (Finite 3 (- 1))) = Inr (1, 500000000)) \<and>
   (\<forall>oor. \<exists>i f fm fe pm pe.
      parseComponents oor (TFloat64 (Finite 3 (- 1))) = Inr (i, f) \<and>
      sint i = trunc_rat (float_val 3 (- 1)) \<and>
      float_val fm fe = float_val 3 (- 1) - of_int (trunc_rat (float_val 3 (- 1))) \<and>
      fmul (Finite fm fe) (Finite 1000000000 0) = Finite pm pe \<and>
      sint f = trunc_rat (float_val pm pe))"
proof -
  have t: "trunc_rat (float_val 3 (- 1)) = 1"
    unfolding float_val_three_halves by (subst trunc_rat_divide) simp_all
  have h1: "- (2 ^ 63) \<le> trunc_rat (float_val 3 (- 1))" unfolding t by simp
  have h2: "trunc_rat (float_val 3 (- 1)) < 2 ^ 63" unfolding t by simp
  have ev: "\<forall>oor. parseComponents oor (TFloat64 (Finite 3 (- 1))) = Inr (1, 500000000)"
    by (simp add: parseComponents_def Modf_def fmul_def round_float_def int64_of_float_def
        trunc_float_def bit_length.simps)
  show ?thesis
    using t h1 h2 ev parseComponents_float [OF h1 h2] by blast
qed

text \<open>
  C3 as stated fails at the float64 \<open>2 ^ -30\<close> (about 0.93 ns): the fractional part times
  \<open>1e9\<close> is \<open>0.931...\<close>, which rounds to 1 and which the code truncates to 0.
\<close>

theorem parseComponents_float_truncates:
  "(\<forall>oor. parseComponents oor (TFloat64 (Finite 1 (- 30))) = Inr (0, 0)) \<and>
   trunc_rat (float_val 1 (- 30)) = 0 \<and>
   round_rat ((float_val 1 (- 30) - of_int (trunc_rat (float_val 1 (- 30)))) * 1000000000) = 1"
proof -
  have ev: "\<forall>oor. parseComponents oor (TFloat64 (Finite 1 (- 30))) = Inr (0, 0)"
    by (simp add: parseComponents_def Modf_def fmul_def round_float_def int64_of_float_def
        trunc_float_def bit_length.simps)
  have t: "trunc_rat (float_val 1 (- 30)) = 0"
    unfolding float_val_2_pow_minus_30 by (subst trunc_rat_divide) simp_all
  have "(float_val 1 (- 30) - of_int 0) * 1000000000
      = (of_int 1000000000 :: rat) / of_int 1073741824"
    unfolding float_val_2_pow_minus_30 by simp
  then have "round_rat ((float_val 1 (- 30) - of_int 0) * 1000000000) = 1"
    by (simp only: round_rat_divide) simp
  then show ?thesis using ev t by simp
qed

section \<open>Properties of the version string\<close>

lemma SetVersion_unset: "SetVersion v [] = (None, v)"
  by (simp add: SetVersion_def)

lemma SetVersion_set: "version \<noteq> [] \<Longrightarrow> SetVersion v version = (Some ErrVersionAlreadySet, version)"
  by (simp add: SetVersion_def)

text \<open>
  C9 (as amended). From the initial state the first \<open>SetVersion\<close> succeeds and \<open>Version\<close>
  returns the value that was set; when that value is not the empty string, every later
  \<open>SetVersion\<close> fails with \<open>ErrVersionAlreadySet\<close> and leaves the version as it is.
\<close>

theorem SetVersion_write_once:
  "fst (SetVersion v1 initial_version) = None \<and>
   Version (snd (SetVersion v1 initial_version)) = v1 \<and>
   (v1 \<noteq> [] \<longrightarrow>
      (\<forall>v2. SetVersion v2 (snd (SetVersion v1 initial_version)) = (Some ErrVersionAlreadySet, v1)))"
  by (simp add: SetVersion_def initial_version_def Version_def)

theorem SetVersion_write_once_witness:
  "''1.0'' \<noteq> [] \<and>
   SetVersion ''1.0'' initial_version = (None, ''1.0'') \<and>
   SetVersion ''2.0'' (snd (SetVersion ''1.0'' initial_version)) = (Some ErrVersionAlreadySet, ''1.0'') \<and>
   Version (snd (SetVersion ''2.0'' (snd (SetVersion ''1.0'' initial_version)))) = ''1.0''"
  using SetVersion_write_once [of "''1.0''"]
  by (simp add: SetVersion_def initial_version_def Version_def)

text \<open>
  C9 as stated fails when the first value is the empty string: the version still counts as
  unset, the second \<open>SetVersion\<close> succeeds and \<open>Version\<close> returns the second value.
\<close>

theorem SetVersion_empty_then_set:
  "SetVersion [] initial_version = (None, []) \<and>
   SetVersion ''1.0'' (snd (SetVersion [] initial_version)) = (None, ''1.0'') \<and>
   fst (SetVersion ''1.0'' (snd (SetVersion [] initial_version))) \<noteq> Some ErrVersionAlreadySet \<and>
   Version (snd (SetVersion ''1.0'' (snd (SetVersion [] initial_version)))) = ''1.0''"
  by (simp add: SetVersion_def initial_version_def Version_def)

section \<open>Properties of the duration literal\<close>

text \<open>
  What \<open>UnmarshalTOML\<close> computes: for every literal (with the single quotes at its ends
  cut off) the interpretations are tried in this order: a duration expression; a quoted,
  non-empty duration expression; a decimal int64, taken as whole seconds; a float64,
  converted to int64 and then taken as whole seconds. The first that succeeds gives the
  duration, as an int64 count of nanoseconds; when none succeeds the duration is zero. No
  error is returned in any case.
\<close>

lemma UnmarshalTOML_order:
  "UnmarshalTOML oor parseDuration unquote parseFloat b =
     (None,
      case first_success
             [parseDuration (trim_quotes b),
              Option.bind (unquote (trim_quotes b)) (\<lambda>uq. if uq = [] then None else parseDuration uq),
              map_option whole_seconds (case ParseInt (trim_quotes b) of Inr n \<Rightarrow> Some n | Inl e \<Rightarrow> None),
              map_option (\<lambda>x. whole_seconds (int64_of_float oor x)) (parseFloat (trim_quotes b))] of
        Some d \<Rightarrow> d
      | None \<Rightarrow> 0)"
  by (simp add: UnmarshalTOML_def Let_def whole_seconds_def split: option.splits sum.splits)

text \<open>
  C4. On a bare float the code does not do what the specification and its own comment
  (\<open>Second try parsing as float seconds\<close>) say: \<open>time.Second * time.Duration(sF)\<close>
  converts the float to an int64 before it scales it to nanoseconds, so the fractional part
  is lost. The literal \<open>1.5\<close> (no duration expression, as it has no unit; not quoted; no
  integer) gives one second (\<open>1000000000\<close> ns), not one and a half (\<open>1500000000\<close> ns),
  and \<open>0.5\<close> gives the zero duration. The other interpretations keep their meaning: the
  expression \<open>1.5s\<close> is one and a half seconds, the quoted \<open>"1s"\<close> one second, the bare
  integer \<open>10\<close> ten seconds.
\<close>

theorem UnmarshalTOML_float_whole_seconds:
  "(\<forall>oor. UnmarshalTOML oor sample_ParseDuration sample_Unquote sample_ParseFloat ''1.5''
      = (None, 1000000000)) \<and>
   (\<forall>oor. snd (UnmarshalTOML oor sample_ParseDuration sample_Unquote sample_ParseFloat ''1.5'')
      \<noteq> 1500000000) \<and>
   (\<forall>oor. UnmarshalTOML oor sample_ParseDuration sample_Unquote sample_ParseFloat ''0.5''
      = (None, 0)) \<and>
   (\<forall>oor. UnmarshalTOML oor sample_ParseDuration sample_Unquote sample_ParseFloat ''1.5s''
      = (None, 1500000000)) \<and>
   (\<forall>oor. UnmarshalTOML oor sample_ParseDuration sample_Unquote sample_ParseFloat
             [CHR 0x22, CHR ''1'', CHR ''s'', CHR 0x22]
      = (None, 1000000000)) \<and>
   (\<forall>oor. UnmarshalTOML oor sample_ParseDuration sample_Unquote sample_ParseFloat ''10''
      = (None, 10000000000))"
  by (simp add: UnmarshalTOML_def trim_quotes_def sample_ParseDuration_def sample_Unquote_def
      sample_ParseFloat_def ParseInt_def ParseUint_def is_digit_def digit_val_def
      int64_of_float_def trunc_float_def)

section \<open>Properties of the PostgreSQL plugin\<close>

subsection \<open>The column loop\<close>

lemma column_step_tags:
  "fst (column_step ats cm k (tgs, flds, lg)) c =
     (if c = k \<and> k \<notin> ignoredColumns \<and> cell cm k \<noteq> Null \<and> k \<in> set ats
      then (case tag_value (cell cm k) of Some s \<Rightarrow> Some s | None \<Rightarrow> tgs c)
      else tgs c)"
  by (cases "cell cm k") (auto simp: column_step_def Let_def cell_def split: option.splits)

lemma column_step_fields:
  "fst (snd (column_step ats cm k (tgs, flds, lg))) c =
     (if c = k \<and> k \<notin> ignoredColumns \<and> cell cm k \<noteq> Null \<and> k \<notin> set ats
      then Some (field_value (cell cm k))
      else flds c)"
  by (cases "cell cm k") (auto simp: column_step_def Let_def cell_def split: option.splits)

lemma column_step_logs:
  "snd (snd (column_step ats cm k (tgs, flds, lg))) =
     lg @ [DebugColumn k (cell cm k)] @
     (if k \<notin> ignoredColumns \<and> cell cm k \<noteq> Null \<and> k \<in> set ats \<and> tag_value (cell cm k) = None
      then [DebugTagFailed k] else [])"
  by (cases "cell cm k") (auto simp: column_step_def Let_def cell_def split: option.splits)

lemma fold_column_step_tags:
  "fst (fold (column_step ats cm) ks (tgs, flds, lg)) c =
     (if c \<in> set ks \<and> c \<notin> ignoredColumns \<and> cell cm c \<noteq> Null \<and> c \<in> set ats
      then (case tag_value (cell cm c) of Some s \<Rightarrow> Some s | None \<Rightarrow> tgs c)
      else tgs c)"
proof (induction ks arbitrary: tgs flds lg)
  case Nil
  then show ?case by simp
next
  case (Cons k ks)
  obtain t1 f1 l1 where s: "column_step ats cm k (tgs, flds, lg) = (t1, f1, l1)"
    by (cases "column_step ats cm k (tgs, flds, lg)") auto
  have t1: "\<And>x. t1 x = (if x = k \<and> k \<notin> ignoredColumns \<and> cell cm k \<noteq> Null \<and> k \<in> set ats
      then (case tag_value (cell cm k) of Some s \<Rightarrow> Some s | None \<Rightarrow> tgs x)
      else tgs x)"
    using column_step_tags [of ats cm k tgs flds lg] by (simp add: s)
  show ?case
    by (simp add: s Cons.IH t1 split: option.splits)
qed

lemma fold_column_step_fields:
  "fst (snd (fold (column_step ats cm) ks (tgs, flds, lg))) c =
     (if c \<in> set ks \<and> c \<notin> ignoredColumns \<and> cell cm c \<noteq> Null \<and> c \<notin> set ats
      then Some (field_value (cell cm c))
      else flds c)"
proof (induction ks arbitrary: tgs flds lg)
  case Nil
  then show ?case by simp
next
  case (Cons k ks)
  obtain t1 f1 l1 where s: "column_step ats cm k (tgs, flds, lg) = (t1, f1, l1)"
    by (cases "column_step ats cm k (tgs, flds, lg)") auto
  have f1: "\<And>x. f1 x = (if x = k \<and> k \<notin> ignoredColumns \<and> cell cm k \<noteq> Null \<and> k \<notin> set ats
      then Some (field_value (cell cm k))
      else flds x)"
    using column_step_fields [of ats cm k tgs flds lg] by (simp add: s)
  show ?case
    by (simp add: s Cons.IH f1)
qed

lemma fold_column_step_logs_mono:
  "set lg \<subseteq> set (snd (snd (fold (column_step ats cm) ks (tgs, flds, lg))))"
proof (induction ks arbitrary: tgs flds lg)
  case Nil
  then show ?case by simp
next
  case (Cons k ks)
  obtain t1 f1 l1 where s: "column_step ats cm k (tgs, flds, lg) = (t1, f1, l1)"
    by (cases "column_step ats cm k (tgs, flds, lg)") auto
  have "set lg \<subseteq> set l1"
    using column_step_logs [of ats cm k tgs flds lg] by (auto simp: s)
  then show ?case using Cons.IH [of l1 t1 f1] by (auto simp: s)
qed

lemma fold_column_step_tag_failed:
  assumes "c \<in> set ks" and "c \<notin> ignoredColumns" and "cell cm c \<noteq> Null" and "c \<in> set ats"
    and "tag_value (cell cm c) = None"
  shows "DebugTagFailed c \<in> set (snd (snd (fold (column_step ats cm) ks (tgs, flds, lg))))"
  using assms(1)
proof (induction ks arbitrary: tgs flds lg)
  case Nil
  then show ?case by simp
next
  case (Cons k ks)
  obtain t1 f1 l1 where s: "column_step ats cm k (tgs, flds, lg) = (t1, f1, l1)"
    by (cases "column_step ats cm k (tgs, flds, lg)") auto
  show ?case
  proof (cases "c = k")
    case True
    have "DebugTagFailed c \<in> set l1"
      using column_step_logs [of ats cm k tgs flds lg] assms(2-5) True by (simp add: s)
    then show ?thesis
      using fold_column_step_logs_mono [of l1 ats cm ks t1 f1] by (auto simp: s)
  next
    case False
    then have "c \<in> set ks" using Cons.prems by simp
    then show ?thesis using Cons.IH by (simp add: s)
  qed
qed

subsection \<open>accRow on a row that scans\<close>

lemma accRow_scanned:
  assumes "Scan r (columnVars columns) (new_columnMap columns) = Inr cm"
    and "SanitizedAddress p = Inr addr"
  shows "\<exists>m lg. accRow p meas r columns st
           = (None, st\<lparr>logs := logs st @ lg, accum := accum st @ [m]\<rparr>) \<and>
         m_name m = meas \<and>
         (\<forall>c. m_tags m c =
            (if c \<in> set columns \<and> c \<notin> ignoredColumns \<and> cell cm c \<noteq> Null \<and>
                c \<in> set (AdditionalTags st) \<and> tag_value (cell cm c) \<noteq> None
             then tag_value (cell cm c)
             else if c = ''server'' then Some addr
             else if c = ''db'' then Some (case cm ''datname'' of
                                             Some (VString d) \<Rightarrow> d | _ \<Rightarrow> ''postgres'')
             else None)) \<and>
         (\<forall>c. m_fields m c =
            (if c \<in> set columns \<and> c \<notin> ignoredColumns \<and> cell cm c \<noteq> Null \<and>
                c \<notin> set (AdditionalTags st)
             then Some (field_value (cell cm c)) else None)) \<and>
         (\<forall>c. c \<in> set columns \<and> c \<notin> ignoredColumns \<and> cell cm c \<noteq> Null \<and>
              c \<in> set (AdditionalTags st) \<and> tag_value (cell cm c) = None
              \<longrightarrow> DebugTagFailed c \<in> set lg)"
proof -
  define dbname where "dbname = (case cm ''datname'' of
      Some (VString d) \<Rightarrow> d | _ \<Rightarrow> ''postgres'')"
  define t0 :: "string \<rightharpoonup> string" where "t0 = [''server'' \<mapsto> addr, ''db'' \<mapsto> dbname]"
  define res where "res = fold (column_step (AdditionalTags st) cm) (remdups columns)
      (t0, Map.empty, [])"
  obtain tgs flds lg where res: "res = (tgs, flds, lg)" by (cases res) auto
  have acc: "accRow p meas r columns st
      = (None, st\<lparr>logs := logs st @ lg,
                  accum := accum st @ [\<lparr>m_name = meas, m_fields = flds, m_tags = tgs\<rparr>]\<rparr>)"
    using assms res
    by (simp add: accRow_def Let_def dbname_def [symmetric] t0_def [symmetric] res_def [symmetric])
  have t: "\<And>c. tgs c = (if c \<in> set columns \<and> c \<notin> ignoredColumns \<and> cell cm c \<noteq> Null \<and>
        c \<in> set (AdditionalTags st)
      then (case tag_value (cell cm c) of Some s \<Rightarrow> Some s | None \<Rightarrow> t0 c) else t0 c)"
    using fold_column_step_tags [of "AdditionalTags st" cm "remdups columns" t0 Map.empty "[]"]
    by (simp add: res_def [symmetric] res)
  have f: "\<And>c. flds c = (if c \<in> set columns \<and> c \<notin> ignoredColumns \<and> cell cm c \<noteq> Null \<and>
        c \<notin> set (AdditionalTags st)
      then Some (field_value (cell cm c)) else None)"
    using fold_column_step_fields [of "AdditionalTags st" cm "remdups columns" t0 Map.empty "[]"]
    by (simp add: res_def [symmetric] res)
  have l: "\<And>c. c \<in> set columns \<and> c \<notin> ignoredColumns \<and> cell cm c \<noteq> Null \<and>
        c \<in> set (AdditionalTags st) \<and> tag_value (cell cm c) = None
        \<Longrightarrow> DebugTagFailed c \<in> set lg"
    using fold_column_step_tag_failed [of _ "remdups columns" cm "AdditionalTags st" t0 Map.empty "[]"]
    by (simp add: res_def [symmetric] res)
  have t0: "\<And>c. t0 c = (if c = ''server'' then Some addr
      else if c = ''db'' then Some dbname else None)"
    by (simp add: t0_def)
  show ?thesis
    apply (rule exI [of _ "\<lparr>m_name = meas, m_fields = flds, m_tags = tgs\<rparr>"])
    apply (rule exI [of _ lg])
    using acc t f l t0 by (auto simp: dbname_def split: option.splits)
qed

subsection \<open>Scan on distinct column names\<close>

lemma fold_assign_other:
  "c \<notin> set cs \<Longrightarrow> fold assign (zip cs vs) m c = m c"
proof (induction cs arbitrary: vs m)
  case Nil
  then show ?case by simp
next
  case (Cons a cs)
  then show ?case by (cases vs) (auto simp: assign_def)
qed

lemma fold_assign_nth:
  "distinct cs \<Longrightarrow> length vs = length cs \<Longrightarrow> i < length cs \<Longrightarrow>
   fold assign (zip cs vs) m (cs ! i) = Some (vs ! i)"
proof (induction cs arbitrary: vs m i)
  case Nil
  then show ?case by simp
next
  case (Cons a cs)
  then obtain w ws where vs: "vs = w # ws" by (cases vs) auto
  show ?case
  proof (cases i)
    case 0
    then show ?thesis
      using Cons.prems by (simp add: vs fold_assign_other) (simp add: assign_def)
  next
    case (Suc j)
    then show ?thesis using Cons.prems Cons.IH [of ws j] by (simp add: vs)
  qed
qed

lemma Scan_distinct:
  assumes "distinct columns" and "length vs = length columns"
  shows "\<exists>cm. Scan (Row vs) (columnVars columns) (new_columnMap columns) = Inr cm \<and>
           (\<forall>i<length columns. cell cm (columns ! i) = vs ! i)"
proof -
  have cv: "columnVars columns = columns"
    using assms(1) by (simp add: columnVars_def distinct_remdups_id)
  show ?thesis
    using assms by (simp add: Scan_def cv cell_def fold_assign_nth)
qed

subsection \<open>Tags and fields of an accepted row\<close>

lemmas sample_defs = sample_plugin_def sample_state_def sample_query_def sample_source_def
  sample_unreachable_def sample_rows_def

lemmas accRow_eval = accRow_def Scan_def assign_def columnVars_def new_columnMap_def column_step_def
  ignoredColumns_def show_int_def Let_def

lemmas Gather_eval = Gather_def gather_query_def queryAddon_def version_query_def

lemma length_remdups_less: "\<not> distinct xs \<Longrightarrow> length (remdups xs) < length xs"
proof (induction xs)
  case Nil
  then show ?case by simp
next
  case (Cons x xs)
  have le: "length (remdups xs) \<le> length xs" by (rule length_remdups_leq)
  show ?case
  proof (cases "x \<in> set xs")
    case True
    then have "length (remdups (x # xs)) = length (remdups xs)" by simp
    then show ?thesis using le by (simp only: list.size)
  next
    case False
    then have "\<not> distinct xs" using Cons.prems by simp
    then show ?thesis using Cons.IH False by simp
  qed
qed

text \<open>
  A row has one value for each column of its result set. When two columns have the same
  name, \<open>columnMap\<close> has fewer cells than the row has values, and \<open>Scan\<close> refuses.
\<close>

lemma accRow_duplicate_columns:
  assumes "\<not> distinct columns" and "length vs = length columns"
  shows "\<exists>e. accRow p meas (Row vs) columns st = (Some e, st)"
proof -
  have lt: "length (remdups columns) < length columns"
    by (rule length_remdups_less [OF assms(1)])
  then have "length (columnVars columns) = length (remdups columns)"
    unfolding columnVars_def by (simp only: length_take)
  then have "length (columnVars columns) \<noteq> length vs"
    using lt assms(2) by linarith
  then show ?thesis by (simp add: accRow_def Scan_def)
qed

lemma accRow_address_error:
  "SanitizedAddress p = Inl e \<Longrightarrow> \<exists>e'. accRow p meas r columns st = (Some e', st)"
  by (cases "Scan r (columnVars columns) (new_columnMap columns)") (simp_all add: accRow_def Let_def)

lemma accRow_accepted:
  assumes "accRow p meas (Row vs) columns st = (None, st')" and "length vs = length columns"
  shows "distinct columns \<and> (\<exists>addr. SanitizedAddress p = Inr addr)"
proof -
  have d: "distinct columns"
    using accRow_duplicate_columns [OF _ assms(2), of p meas st] assms(1) by auto
  have "\<exists>addr. SanitizedAddress p = Inr addr"
    using accRow_address_error [of p _ meas "Row vs" columns st] assms(1)
    by (cases "SanitizedAddress p") auto
  then show ?thesis using d by simp
qed

text \<open>
  C7 (as amended). Let \<open>accRow\<close> accept a row with one value for each column, and let the
  column at index \<open>i\<close> be non-null, not ignored, and named in \<open>p.AdditionalTags\<close>. Then
  one metric is added, the column is no field of it, and: a \<open>string\<close> or \<open>[]byte\<close>
  value is the tag's value; an \<open>int64\<close>, \<open>int32\<close> or \<open>int\<close> value becomes a tag whose
  value is its decimal form; a \<open>float64\<close> or a \<open>bool\<close> value is not made a tag (for a
  column not named \<open>server\<close> or \<open>db\<close> the metric has no tag of that name), and the
  failure is logged at debug level.
\<close>

theorem accRow_tag_column:
  assumes "accRow p meas (Row vs) columns st = (None, st')" and "length vs = length columns"
    and "i < length columns" and "columns ! i \<in> set (AdditionalTags st)"
    and "columns ! i \<notin> ignoredColumns" and "vs ! i \<noteq> Null"
  shows "\<exists>m lg. st' = st\<lparr>logs := logs st @ lg, accum := accum st @ [m]\<rparr> \<and>
         m_fields m (columns ! i) = None \<and>
         (\<forall>s. vs ! i = VString s \<or> vs ! i = VBytes s \<longrightarrow> m_tags m (columns ! i) = Some s) \<and>
         (\<forall>n. vs ! i = VInt64 n \<or> vs ! i = VInt n \<longrightarrow>
              m_tags m (columns ! i) = Some (show_int (sint n))) \<and>
         (\<forall>n. vs ! i = VInt32 n \<longrightarrow> m_tags m (columns ! i) = Some (show_int (sint n))) \<and>
         ((\<exists>x. vs ! i = VFloat64 x) \<or> (\<exists>b. vs ! i = VBool b) \<longrightarrow>
            DebugTagFailed (columns ! i) \<in> set lg \<and>
            (columns ! i \<noteq> ''server'' \<and> columns ! i \<noteq> ''db'' \<longrightarrow> m_tags m (columns ! i) = None))"
proof -
  obtain addr where dist: "distinct columns" and addr: "SanitizedAddress p = Inr addr"
    using accRow_accepted [OF assms(1,2)] by blast
  obtain cm where scan: "Scan (Row vs) (columnVars columns) (new_columnMap columns) = Inr cm"
    and cells: "\<forall>i<length columns. cell cm (columns ! i) = vs ! i"
    using Scan_distinct [OF dist assms(2)] by blast
  have c: "cell cm (columns ! i) = vs ! i" using cells assms(3) by simp
  have mem: "columns ! i \<in> set columns" using assms(3) by simp
  obtain m lg where acc: "accRow p meas (Row vs) columns st
        = (None, st\<lparr>logs := logs st @ lg, accum := accum st @ [m]\<rparr>)"
    and tags: "\<forall>c. m_tags m c =
            (if c \<in> set columns \<and> c \<notin> ignoredColumns \<and> cell cm c \<noteq> Null \<and>
                c \<in> set (AdditionalTags st) \<and> tag_value (cell cm c) \<noteq> None
             then tag_value (cell cm c)
             else if c = ''server'' then Some addr
             else if c = ''db'' then Some (case cm ''datname'' of
                                             Some (VString d) \<Rightarrow> d | _ \<Rightarrow> ''postgres'')
             else None)"
    and fields: "\<forall>c. m_fields m c =
            (if c \<in> set columns \<and> c \<notin> ignoredColumns \<and> cell cm c \<noteq> Null \<and>
                c \<notin> set (AdditionalTags st)
             then Some (field_value (cell cm c)) else None)"
    and failed: "\<forall>c. c \<in> set columns \<and> c \<notin> ignoredColumns \<and> cell cm c \<noteq> Null \<and>
              c \<in> set (AdditionalTags st) \<and> tag_value (cell cm c) = None
              \<longrightarrow> DebugTagFailed c \<in> set lg"
    using accRow_scanned [OF scan addr, of meas st] by blast
  have st': "st' = st\<lparr>logs := logs st @ lg, accum := accum st @ [m]\<rparr>"
    using acc assms(1) by simp
  have f: "m_fields m (columns ! i) = None" using fields assms(4) by simp
  have t: "m_tags m (columns ! i) =
      (if tag_value (vs ! i) \<noteq> None then tag_value (vs ! i)
       else if columns ! i = ''server'' then Some addr
       else if columns ! i = ''db'' then Some (case cm ''datname'' of
                                             Some (VString d) \<Rightarrow> d | _ \<Rightarrow> ''postgres'')
       else None)"
    using tags mem assms(4-6) c by simp
  have l: "tag_value (vs ! i) = None \<longrightarrow> DebugTagFailed (columns ! i) \<in> set lg"
    using failed mem assms(4-6) c by simp
  show ?thesis
    apply (rule exI [of _ m])
    apply (rule exI [of _ lg])
    using st' f t l by auto
qed

text \<open>
  C8 (as amended). Let \<open>accRow\<close> accept a row with one value for each column. Then one
  metric of the given name is added. No name other than \<open>server\<close> and \<open>db\<close> is both a
  tag and a field of it. A column whose value is \<open>nil\<close> or whose name is ignored is no
  field and, unless it is named \<open>server\<close> or \<open>db\<close>, no tag. The tags \<open>server\<close> and
  \<open>db\<close> are always present; every other tag and every field is a column.
\<close>

theorem accRow_tags_fields:
  assumes "accRow p meas (Row vs) columns st = (None, st')" and "length vs = length columns"
  shows "\<exists>m lg. st' = st\<lparr>logs := logs st @ lg, accum := accum st @ [m]\<rparr> \<and>
         m_name m = meas \<and>
         (\<forall>c. c \<noteq> ''server'' \<and> c \<noteq> ''db'' \<longrightarrow> \<not> (c \<in> dom (m_tags m) \<and> c \<in> dom (m_fields m))) \<and>
         (\<forall>i<length columns. vs ! i = Null \<or> columns ! i \<in> ignoredColumns \<longrightarrow>
            columns ! i \<notin> dom (m_fields m) \<and>
            (columns ! i \<noteq> ''server'' \<and> columns ! i \<noteq> ''db'' \<longrightarrow> columns ! i \<notin> dom (m_tags m))) \<and>
         ''server'' \<in> dom (m_tags m) \<and> ''db'' \<in> dom (m_tags m) \<and>
         dom (m_tags m) \<subseteq> {''server'', ''db''} \<union> set columns \<and>
         dom (m_fields m) \<subseteq> set columns"
proof -
  obtain addr where dist: "distinct columns" and addr: "SanitizedAddress p = Inr addr"
    using accRow_accepted [OF assms(1,2)] by blast
  obtain cm where scan: "Scan (Row vs) (columnVars columns) (new_columnMap columns) = Inr cm"
    and cells: "\<forall>i<length columns. cell cm (columns ! i) = vs ! i"
    using Scan_distinct [OF dist assms(2)] by blast
  obtain m lg where acc: "accRow p meas (Row vs) columns st
        = (None, st\<lparr>logs := logs st @ lg, accum := accum st @ [m]\<rparr>)"
    and name: "m_name m = meas"
    and tags: "\<forall>c. m_tags m c =
            (if c \<in> set columns \<and> c \<notin> ignoredColumns \<and> cell cm c \<noteq> Null \<and>
                c \<in> set (AdditionalTags st) \<and> tag_value (cell cm c) \<noteq> None
             then tag_value (cell cm c)
             else if c = ''server'' then Some addr
             else if c = ''db'' then Some (case cm ''datname'' of
                                             Some (VString d) \<Rightarrow> d | _ \<Rightarrow> ''postgres'')
             else None)"
    and fields: "\<forall>c. m_fields m c =
            (if c \<in> set columns \<and> c \<notin> ignoredColumns \<and> cell cm c \<noteq> Null \<and>
                c \<notin> set (AdditionalTags st)
             then Some (field_value (cell cm c)) else None)"
    using accRow_scanned [OF scan addr, of meas st] by blast
  have st': "st' = st\<lparr>logs := logs st @ lg, accum := accum st @ [m]\<rparr>"
    using acc assms(1) by simp
  have disj: "\<forall>c. c \<noteq> ''server'' \<and> c \<noteq> ''db'' \<longrightarrow> \<not> (c \<in> dom (m_tags m) \<and> c \<in> dom (m_fields m))"
    using tags fields by (auto simp: dom_def split: if_splits)
  have null: "\<forall>i<length columns. vs ! i = Null \<or> columns ! i \<in> ignoredColumns \<longrightarrow>
            columns ! i \<notin> dom (m_fields m) \<and>
            (columns ! i \<noteq> ''server'' \<and> columns ! i \<noteq> ''db'' \<longrightarrow> columns ! i \<notin> dom (m_tags m))"
    using tags fields cells by (auto simp: dom_def split: if_splits)
  have base: "''server'' \<in> dom (m_tags m) \<and> ''db'' \<in> dom (m_tags m)"
    using tags by (auto simp: dom_def split: if_splits)
  have sub: "dom (m_tags m) \<subseteq> {''server'', ''db''} \<union> set columns \<and> dom (m_fields m) \<subseteq> set columns"
    using tags fields by (auto simp: dom_def split: if_splits)
  show ?thesis
    apply (rule exI [of _ m])
    apply (rule exI [of _ lg])
    using st' name disj null base sub by blast
qed

text \<open>
  A row with the tag columns \<open>host\<close> (a string), \<open>n\<close> (the int64 \<open>-7\<close>) and \<open>load\<close> (the
  float64 \<open>1.5\<close>): the tags \<open>host = a\<close> and \<open>n = -7\<close>, no tag \<open>load\<close>, a logged failure
  for \<open>load\<close>, and no field.
\<close>

theorem accRow_tag_column_witness:
  "accRow (sample_plugin []) ''postgresql''
       (Row [VString ''a'', VInt64 (- 7), VFloat64 (Finite 3 (- 1))])
       [''host'', ''n'', ''load''] (sample_state [''host'', ''n'', ''load''])
     = (None, snd (accRow (sample_plugin []) ''postgresql''
                     (Row [VString ''a'', VInt64 (- 7), VFloat64 (Finite 3 (- 1))])
                     [''host'', ''n'', ''load''] (sample_state [''host'', ''n'', ''load'']))) \<and>
   (\<lambda>s. (map (\<lambda>m. (m_tags m ''host'', m_tags m ''n'', m_tags m ''load'',
                     m_fields m ''host'', m_fields m ''n'', m_fields m ''load'')) (accum s),
          DebugTagFailed ''load'' \<in> set (logs s)))
     (snd (accRow (sample_plugin []) ''postgresql''
             (Row [VString ''a'', VInt64 (- 7), VFloat64 (Finite 3 (- 1))])
             [''host'', ''n'', ''load''] (sample_state [''host'', ''n'', ''load''])))
   = ([(Some ''a'', Some ''-7'', None, None, None, None)], True)"
proof -
  have "fst (accRow (sample_plugin []) ''postgresql''
       (Row [VString ''a'', VInt64 (- 7), VFloat64 (Finite 3 (- 1))])
       [''host'', ''n'', ''load''] (sample_state [''host'', ''n'', ''load''])) = None"
    by (simp add: accRow_eval sample_defs)
  then have h1: "accRow (sample_plugin []) ''postgresql''
       (Row [VString ''a'', VInt64 (- 7), VFloat64 (Finite 3 (- 1))])
       [''host'', ''n'', ''load''] (sample_state [''host'', ''n'', ''load''])
     = (None, snd (accRow (sample_plugin []) ''postgresql''
                     (Row [VString ''a'', VInt64 (- 7), VFloat64 (Finite 3 (- 1))])
                     [''host'', ''n'', ''load''] (sample_state [''host'', ''n'', ''load''])))"
    by (simp add: prod_eq_iff)
  have h2: "length [VString ''a'', VInt64 (- 7), VFloat64 (Finite 3 (- 1))]
      = length [''host'', ''n'', ''load'']" by simp
  have h3: "2 < length [''host'', ''n'', ''load'']" by simp
  have h4: "[''host'', ''n'', ''load''] ! 2 \<in> set (AdditionalTags (sample_state [''host'', ''n'', ''load'']))"
    by (simp add: sample_defs)
  have h5: "[''host'', ''n'', ''load''] ! 2 \<notin> ignoredColumns"
    by (simp add: ignoredColumns_def)
  have h6: "[VString ''a'', VInt64 (- 7), VFloat64 (Finite 3 (- 1))] ! 2 \<noteq> Null" by simp
  note c = accRow_tag_column [OF h1 h2 h3 h4 h5 h6]
  have ev: "(\<lambda>s. (map (\<lambda>m. (m_tags m ''host'', m_tags m ''n'', m_tags m ''load'',
                     m_fields m ''host'', m_fields m ''n'', m_fields m ''load'')) (accum s),
          DebugTagFailed ''load'' \<in> set (logs s)))
     (snd (accRow (sample_plugin []) ''postgresql''
             (Row [VString ''a'', VInt64 (- 7), VFloat64 (Finite 3 (- 1))])
             [''host'', ''n'', ''load''] (sample_state [''host'', ''n'', ''load''])))
   = ([(Some ''a'', Some ''-7'', None, None, None, None)], True)"
    by (simp add: accRow_eval sample_defs digits_of.simps)
  show ?thesis using h1 ev c by blast
qed

text \<open>
  C7 as stated fails on a \<open>bool\<close>: the column \<open>flag\<close> with the value \<open>true\<close>, named as a
  tag, is neither a tag nor a field of the metric, and the failure is logged. The type
  switch of \<open>accRow\<close> has no case for \<open>bool\<close>.
\<close>

theorem accRow_bool_tag_dropped:
  "(\<lambda>r. (fst r, map (\<lambda>m. (m_tags m ''flag'', m_fields m ''flag'')) (accum (snd r)), logs (snd r)))
     (accRow (sample_plugin []) ''postgresql'' (Row [VBool True]) [''flag'']
             (sample_state [''flag'']))
   = (None, [(None, None)], [DebugColumn ''flag'' (VBool True), DebugTagFailed ''flag''])"
  by (simp add: accRow_eval sample_defs)

text \<open>
  The example of the specification: the row \<open>host = a\<close>, \<open>value = 42\<close>, \<open>secret = nil\<close>
  with the tag name \<open>host\<close> gives the tag \<open>host = a\<close>, the field \<open>value = 42\<close>, and
  \<open>secret\<close> in neither.
\<close>

theorem accRow_tags_fields_witness:
  "accRow (sample_plugin []) ''postgresql'' (Row [VString ''a'', VInt64 42, Null])
       [''host'', ''value'', ''secret''] (sample_state [''host''])
     = (None, snd (accRow (sample_plugin []) ''postgresql'' (Row [VString ''a'', VInt64 42, Null])
                     [''host'', ''value'', ''secret''] (sample_state [''host'']))) \<and>
   map (\<lambda>m. (m_tags m ''host'', m_fields m ''host'', m_tags m ''value'', m_fields m ''value'',
              m_tags m ''secret'', m_fields m ''secret''))
     (accum (snd (accRow (sample_plugin []) ''postgresql'' (Row [VString ''a'', VInt64 42, Null])
                   [''host'', ''value'', ''secret''] (sample_state [''host'']))))
   = [(Some ''a'', None, None, Some (VInt64 42), None, None)]"
proof -
  have "fst (accRow (sample_plugin []) ''postgresql'' (Row [VString ''a'', VInt64 42, Null])
       [''host'', ''value'', ''secret''] (sample_state [''host''])) = None"
    by (simp add: accRow_eval sample_defs)
  then have h1: "accRow (sample_plugin []) ''postgresql'' (Row [VString ''a'', VInt64 42, Null])
       [''host'', ''value'', ''secret''] (sample_state [''host''])
     = (None, snd (accRow (sample_plugin []) ''postgresql'' (Row [VString ''a'', VInt64 42, Null])
                     [''host'', ''value'', ''secret''] (sample_state [''host''])))"
    by (simp add: prod_eq_iff)
  have h2: "length [VString ''a'', VInt64 42, Null] = length [''host'', ''value'', ''secret'']"
    by simp
  note c = accRow_tags_fields [OF h1 h2]
  have ev: "map (\<lambda>m. (m_tags m ''host'', m_fields m ''host'', m_tags m ''value'', m_fields m ''value'',
              m_tags m ''secret'', m_fields m ''secret''))
     (accum (snd (accRow (sample_plugin []) ''postgresql'' (Row [VString ''a'', VInt64 42, Null])
                   [''host'', ''value'', ''secret''] (sample_state [''host'']))))
   = [(Some ''a'', None, None, Some (VInt64 42), None, None)]"
    by (simp add: accRow_eval sample_defs)
  show ?thesis using h1 ev c by blast
qed

text \<open>
  C8 as stated fails on a column named \<open>server\<close> (or \<open>db\<close>): the tags start with
  \<open>server\<close> and \<open>db\<close>, so the column \<open>server = x\<close>, not named as a tag, is a field while
  \<open>server\<close> is a tag too (the address).
\<close>

theorem accRow_server_column_in_both:
  "(\<lambda>r. (fst r, map (\<lambda>m. (m_tags m ''server'', m_fields m ''server'')) (accum (snd r))))
     (accRow (sample_plugin []) ''postgresql'' (Row [VString ''x'']) [''server''] (sample_state []))
   = (None, [(Some ''host=localhost'', Some (VString ''x''))])"
  by (simp add: accRow_eval sample_defs)

subsection \<open>The loop over the queries\<close>

lemma Gather_no_error: "fst (Gather p src st) = None"
  by (simp add: Gather_def Let_def split: prod.splits)

lemma gather_queries_append:
  "gather_queries p src v (qs1 @ qs2) st = gather_queries p src v qs2 (gather_queries p src v qs1 st)"
  by (induction qs1 arbitrary: st) simp_all

lemma gather_query_skipped: "v < Version_query q \<Longrightarrow> gather_query p src v q st = st"
  by (simp add: gather_query_def Let_def)

lemma gather_queries_skipped:
  "\<forall>q\<in>set qs. v < Version_query q \<Longrightarrow> gather_queries p src v qs st = st"
  by (induction qs arbitrary: st) (simp_all add: gather_query_skipped)

lemma gather_query_failed:
  assumes "Version_query q \<le> v"
    and "QueryRows src (DB st) (Sqlquery q @ queryAddon p q) = (Inl e, db')"
  shows "gather_query p src v q st = st\<lparr>DB := db', logs := logs st @ [LogError e]\<rparr>"
  using assms by (simp add: gather_query_def Let_def)

text \<open>
  C5 (as amended). When the version query fails, \<open>Gather\<close> does not stop: it takes the
  version to be 0, runs the loop over the queries with it, and returns no error. When
  every query asks for a version above 0, none is run: nothing is logged and no metric is
  added.
\<close>

theorem Gather_version_undetected:
  assumes "QueryRow src (DB st) version_query = (Inl e, db')"
  shows "Gather p src st = (None, gather_queries p src 0 (Query p) (st\<lparr>DB := db'\<rparr>)) \<and>
         ((\<forall>q\<in>set (Query p). 0 < Version_query q) \<longrightarrow> Gather p src st = (None, st\<lparr>DB := db'\<rparr>))"
  using assms by (simp add: Gather_def gather_queries_skipped)

text \<open>The accumulator only grows.\<close>

lemma accRow_accum_prefix:
  "\<exists>new. accum (snd (accRow p meas r columns st)) = accum st @ new"
  by (auto simp: accRow_def Let_def split: sum.splits prod.splits)

lemma acc_rows_accum_prefix:
  "\<exists>new. accum (acc_rows p meas columns rs st) = accum st @ new"
proof (induction rs arbitrary: st)
  case Nil
  then show ?case by simp
next
  case (Cons r rs)
  obtain e st1 where a: "accRow p meas r columns st = (e, st1)"
    by (cases "accRow p meas r columns st") auto
  obtain n1 where n1: "accum st1 = accum st @ n1"
    using accRow_accum_prefix [of p meas r columns st] by (auto simp: a)
  show ?case
  proof (cases e)
    case None
    obtain n2 where "accum (acc_rows p meas columns rs st1) = accum st1 @ n2"
      using Cons.IH [of st1] by blast
    then show ?thesis using None a n1 by simp
  next
    case (Some x)
    then show ?thesis using a n1 by simp
  qed
qed

lemma gather_query_accum_prefix:
  "\<exists>new. accum (gather_query p src v q st) = accum st @ new"
proof (cases "Version_query q \<le> v")
  case False
  then show ?thesis by (simp add: gather_query_def Let_def)
next
  case True
  obtain r db' where qr: "QueryRows src (DB st) (Sqlquery q @ queryAddon p q) = (r, db')"
    by (cases "QueryRows src (DB st) (Sqlquery q @ queryAddon p q)") auto
  show ?thesis
  proof (cases r)
    case (Inl e)
    then show ?thesis using True qr by (simp add: gather_query_def Let_def)
  next
    case (Inr rs)
    show ?thesis
    proof (cases "rs_columns rs")
      case (Inl e)
      then show ?thesis using True qr Inr by (simp add: gather_query_def Let_def)
    next
      case cols: (Inr columns)
      define st1 where "st1 = st\<lparr>DB := db',
          AdditionalTags := (if Tagvalue q \<noteq> [] then Split (Tagvalue q) (CHR '','') else [])\<rparr>"
      define meas where "meas = (if Measurement q \<noteq> [] then Measurement q else ''postgresql'')"
      have g: "gather_query p src v q st = acc_rows p meas columns (rs_rows rs) st1"
        using True qr Inr cols by (simp add: gather_query_def Let_def st1_def meas_def)
      obtain new where "accum (acc_rows p meas columns (rs_rows rs) st1) = accum st1 @ new"
        using acc_rows_accum_prefix [of p meas columns "rs_rows rs" st1] by blast
      then have "accum (gather_query p src v q st) = accum st @ new"
        by (simp add: g st1_def)
      then show ?thesis by blast
    qed
  qed
qed

lemma gather_queries_accum_prefix:
  "\<exists>new. accum (gather_queries p src v qs st) = accum st @ new"
proof (induction qs arbitrary: st)
  case Nil
  then show ?case by simp
next
  case (Cons q qs)
  obtain n1 where n1: "accum (gather_query p src v q st) = accum st @ n1"
    using gather_query_accum_prefix [of p src v q st] by blast
  obtain n2 where "accum (gather_queries p src v qs (gather_query p src v q st))
      = accum (gather_query p src v q st) @ n2"
    using Cons.IH [of "gather_query p src v q st"] by blast
  then show ?case using n1 by simp
qed

text \<open>
  C6. When the query of a descriptor that is due (its version is at most the detected one)
  fails, the error is logged, no metric is lost or added, and the loop goes on with the
  descriptors after it from that state: the next descriptor is run by \<open>gather_query\<close> as
  any other, and the metrics it adds are in the accumulator at the end. \<open>Gather\<close> returns
  no error.
\<close>

theorem gather_queries_query_error:
  assumes "Version_query q \<le> v"
    and "QueryRows src (DB (gather_queries p src v qs1 st)) (Sqlquery q @ queryAddon p q) = (Inl e, db')"
  shows "gather_queries p src v (qs1 @ q # qs2) st
           = gather_queries p src v qs2
               ((gather_queries p src v qs1 st)
                  \<lparr>DB := db', logs := logs (gather_queries p src v qs1 st) @ [LogError e]\<rparr>) \<and>
         gather_queries p src v (qs1 @ q # q2 # qs3) st
           = gather_queries p src v qs3
               (gather_query p src v q2
                  ((gather_queries p src v qs1 st)
                     \<lparr>DB := db', logs := logs (gather_queries p src v qs1 st) @ [LogError e]\<rparr>)) \<and>
         (\<exists>new. accum (gather_queries p src v (qs1 @ q # q2 # qs3) st)
            = accum (gather_query p src v q2
                  ((gather_queries p src v qs1 st)
                     \<lparr>DB := db', logs := logs (gather_queries p src v qs1 st) @ [LogError e]\<rparr>)) @ new) \<and>
         fst (Gather p src st) = None"
proof -
  define st1 where "st1 = (gather_queries p src v qs1 st)
      \<lparr>DB := db', logs := logs (gather_queries p src v qs1 st) @ [LogError e]\<rparr>"
  have f: "gather_query p src v q (gather_queries p src v qs1 st) = st1"
    unfolding st1_def by (rule gather_query_failed [OF assms])
  have 1: "gather_queries p src v (qs1 @ q # qs2) st = gather_queries p src v qs2 st1"
    by (simp add: gather_queries_append f)
  have 2: "gather_queries p src v (qs1 @ q # q2 # qs3) st
      = gather_queries p src v qs3 (gather_query p src v q2 st1)"
    by (simp add: gather_queries_append f)
  have 3: "\<exists>new. accum (gather_queries p src v (qs1 @ q # q2 # qs3) st)
      = accum (gather_query p src v q2 st1) @ new"
    unfolding 2 by (rule gather_queries_accum_prefix)
  show ?thesis
    using 1 2 3 Gather_no_error [of p src st] unfolding st1_def by blast
qed

lemma accRow_scan_error:
  "Scan r (columnVars columns) (new_columnMap columns) = Inl e \<Longrightarrow>
   accRow p meas r columns st = (Some (''row scan: '' @ e), st)"
  by (simp add: accRow_def)

lemma acc_rows_stops:
  assumes "Scan r (columnVars columns) (new_columnMap columns) = Inl e"
  shows "acc_rows p meas columns (pre @ r # post) st = acc_rows p meas columns (pre @ [r]) st"
proof (induction pre arbitrary: st)
  case Nil
  then show ?case by (simp add: accRow_scan_error [OF assms])
next
  case (Cons x pre)
  then show ?case by (simp split: prod.splits option.splits)
qed

lemma acc_rows_failed_last:
  assumes "Scan r (columnVars columns) (new_columnMap columns) = Inl e"
  shows "accum (acc_rows p meas columns (pre @ [r]) st) = accum (acc_rows p meas columns pre st)"
proof (induction pre arbitrary: st)
  case Nil
  then show ?case by (simp add: accRow_scan_error [OF assms])
next
  case (Cons x pre)
  then show ?case by (simp split: prod.splits option.splits)
qed

text \<open>
  C5 as stated fails: with the same database and a query that asks for version 0, the query
  is run, its row gives a metric, and \<open>Gather\<close> returns no error.
\<close>

theorem Gather_unreachable_emits:
  "QueryRow sample_unreachable (DB (sample_state [])) version_query = (Inl ''connection refused'', 1) \<and>
   (\<lambda>(e, s). (e, map m_name (accum s), map (\<lambda>m. m_fields m ''value'') (accum s)))
     (Gather (sample_plugin [sample_query ''SELECT a'' 0 ''host'']) sample_unreachable (sample_state []))
   = (None, [''postgresql''], [Some (VInt64 42)])"
  by (simp add: Gather_eval accRow_eval sample_defs)

text \<open>
  C10. When \<open>Scan\<close> fails on a row, the rows after it have no effect at all (the result
  is that of the rows up to and including the failing one), and the metrics are those of
  the rows before it. The loop over the queries goes on with the next descriptor, and
  \<open>Gather\<close> returns no error.
\<close>

theorem gather_query_row_scan_error:
  assumes "Version_query q \<le> v"
    and "QueryRows src (DB st) (Sqlquery q @ queryAddon p q) = (Inr rs, db')"
    and "rs_columns rs = Inr columns"
    and "rs_rows rs = pre @ r # post"
    and "Scan r (columnVars columns) (new_columnMap columns) = Inl e"
  shows "gather_query p src v q st
           = acc_rows p (if Measurement q \<noteq> [] then Measurement q else ''postgresql'') columns
               (pre @ [r])
               (st\<lparr>DB := db',
                   AdditionalTags := (if Tagvalue q \<noteq> [] then Split (Tagvalue q) (CHR '','') else [])\<rparr>) \<and>
         accum (gather_query p src v q st)
           = accum (acc_rows p (if Measurement q \<noteq> [] then Measurement q else ''postgresql'') columns
               pre
               (st\<lparr>DB := db',
                   AdditionalTags := (if Tagvalue q \<noteq> [] then Split (Tagvalue q) (CHR '','') else [])\<rparr>)) \<and>
         gather_queries p src v (q # qs) st = gather_queries p src v qs (gather_query p src v q st) \<and>
         fst (Gather p src st) = None"
proof -
  define meas where "meas = (if Measurement q \<noteq> [] then Measurement q else ''postgresql'')"
  define st1 where "st1 = st\<lparr>DB := db',
      AdditionalTags := (if Tagvalue q \<noteq> [] then Split (Tagvalue q) (CHR '','') else [])\<rparr>"
  have g: "gather_query p src v q st = acc_rows p meas columns (pre @ r # post) st1"
    using assms(1-4) by (simp add: gather_query_def Let_def meas_def st1_def)
  have s: "acc_rows p meas columns (pre @ r # post) st1 = acc_rows p meas columns (pre @ [r]) st1"
    by (rule acc_rows_stops [OF assms(5)])
  have l: "accum (acc_rows p meas columns (pre @ [r]) st1) = accum (acc_rows p meas columns pre st1)"
    by (rule acc_rows_failed_last [OF assms(5)])
  have 1: "gather_query p src v q st = acc_rows p meas columns (pre @ [r]) st1"
    using g s by (rule trans)
  have 2: "accum (gather_query p src v q st) = accum (acc_rows p meas columns pre st1)"
    using 1 l by (simp only:)
  have 3: "gather_queries p src v (q # qs) st = gather_queries p src v qs (gather_query p src v q st)"
    by simp
  show ?thesis
    using 1 2 3 Gather_no_error [of p src st] unfolding meas_def st1_def by blast
qed

text \<open>
  The database whose version query fails, with one query that asks for version 901: the
  state is left as it was, but for the database.
\<close>

theorem Gather_version_undetected_witness:
  "QueryRow sample_unreachable (DB (sample_state [])) version_query = (Inl ''connection refused'', 1) \<and>
   Query (sample_plugin [sample_query ''SELECT a'' 901 ''host'']) = [sample_query ''SELECT a'' 901 ''host''] \<and>
   0 < Version_query (sample_query ''SELECT a'' 901 ''host'') \<and>
   Gather (sample_plugin [sample_query ''SELECT a'' 901 ''host'']) sample_unreachable (sample_state [])
     = (None, (sample_state [])\<lparr>DB := 1\<rparr>)"
proof -
  have h: "QueryRow sample_unreachable (DB (sample_state [])) version_query
      = (Inl ''connection refused'', 1)"
    by (simp add: sample_defs)
  have q: "Query (sample_plugin [sample_query ''SELECT a'' 901 ''host''])
      = [sample_query ''SELECT a'' 901 ''host'']"
    by (simp add: sample_defs)
  have v: "0 < Version_query (sample_query ''SELECT a'' 901 ''host'')"
    by (simp add: sample_defs)
  have a: "\<forall>q\<in>set (Query (sample_plugin [sample_query ''SELECT a'' 901 ''host''])). 0 < Version_query q"
    using v by (simp add: q)
  show ?thesis
    using h q v a Gather_version_undetected [OF h, of "sample_plugin [sample_query ''SELECT a'' 901 ''host'']"]
    by blast
qed

text \<open>
  Two descriptors: \<open>SELECT broken\<close> fails, \<open>SELECT a\<close> is still run and gives its metric;
  the error is the first entry of the log.
\<close>

theorem gather_queries_query_error_witness:
  "Version_query (sample_query ''SELECT broken'' 0 []) \<le> 900 \<and>
   QueryRows sample_source (DB (gather_queries (sample_plugin []) sample_source 900 [] (sample_state [])))
       (Sqlquery (sample_query ''SELECT broken'' 0 []) @
        queryAddon (sample_plugin []) (sample_query ''SELECT broken'' 0 []))
     = (Inl ''syntax error'', 1) \<and>
   (\<lambda>s. (map m_name (accum s), map (\<lambda>m. m_fields m ''value'') (accum s), hd (logs s)))
     (gather_queries (sample_plugin []) sample_source 900
        ([] @ sample_query ''SELECT broken'' 0 [] # sample_query ''SELECT a'' 0 ''host'' # [])
        (sample_state []))
   = ([''postgresql''], [Some (VInt64 42)], LogError ''syntax error'')"
proof -
  have h1: "Version_query (sample_query ''SELECT broken'' 0 []) \<le> 900"
    by (simp add: sample_defs)
  have h2: "QueryRows sample_source
       (DB (gather_queries (sample_plugin []) sample_source 900 [] (sample_state [])))
       (Sqlquery (sample_query ''SELECT broken'' 0 []) @
        queryAddon (sample_plugin []) (sample_query ''SELECT broken'' 0 []))
     = (Inl ''syntax error'', 1)"
    by (simp add: sample_defs queryAddon_def)
  have c: "gather_queries (sample_plugin []) sample_source 900
        ([] @ sample_query ''SELECT broken'' 0 [] # sample_query ''SELECT a'' 0 ''host'' # [])
        (sample_state [])
      = gather_queries (sample_plugin []) sample_source 900 []
               (gather_query (sample_plugin []) sample_source 900 (sample_query ''SELECT a'' 0 ''host'')
                  ((gather_queries (sample_plugin []) sample_source 900 [] (sample_state []))
                     \<lparr>DB := 1, logs := logs (gather_queries (sample_plugin []) sample_source 900 []
                        (sample_state [])) @ [LogError ''syntax error'']\<rparr>))"
    using gather_queries_query_error [OF h1 h2] by blast
  have e: "(\<lambda>s. (map m_name (accum s), map (\<lambda>m. m_fields m ''value'') (accum s), hd (logs s)))
     (gather_queries (sample_plugin []) sample_source 900 []
               (gather_query (sample_plugin []) sample_source 900 (sample_query ''SELECT a'' 0 ''host'')
                  ((gather_queries (sample_plugin []) sample_source 900 [] (sample_state []))
                     \<lparr>DB := 1, logs := logs (gather_queries (sample_plugin []) sample_source 900 []
                        (sample_state [])) @ [LogError ''syntax error'']\<rparr>)))
     = ([''postgresql''], [Some (VInt64 42)], LogError ''syntax error'')"
    by (simp add: Gather_eval accRow_eval sample_defs)
  show ?thesis using h1 h2 e by (simp only: c)
qed

text \<open>
  \<open>SELECT b\<close> has three rows, the second of which cannot be scanned: the first row gives
  a metric, the third none, one error is logged, and \<open>SELECT a\<close> after it gives its metric.
\<close>

theorem gather_query_row_scan_error_witness:
  "Version_query (sample_query ''SELECT b'' 0 []) \<le> 900 \<and>
   QueryRows sample_source (DB (sample_state []))
       (Sqlquery (sample_query ''SELECT b'' 0 []) @
        queryAddon (sample_plugin []) (sample_query ''SELECT b'' 0 []))
     = (Inr \<lparr>rs_columns = Inr [''n''],
              rs_rows = [Row [VInt64 1]] @ ScanError ''bad row'' # [Row [VInt64 3]]\<rparr>, 1) \<and>
   Scan (ScanError ''bad row'') (columnVars [''n'']) (new_columnMap [''n'']) = Inl ''bad row'' \<and>
   map (\<lambda>m. m_fields m ''n'')
     (accum (gather_query (sample_plugin []) sample_source 900 (sample_query ''SELECT b'' 0 [])
        (sample_state []))) = [Some (VInt64 1)] \<and>
   (\<lambda>s. (map (\<lambda>m. (m_fields m ''n'', m_fields m ''value'')) (accum s),
          filter (\<lambda>l. case l of LogError e \<Rightarrow> True | _ \<Rightarrow> False) (logs s)))
     (gather_queries (sample_plugin []) sample_source 900
        [sample_query ''SELECT b'' 0 [], sample_query ''SELECT a'' 0 ''host''] (sample_state []))
   = ([(Some (VInt64 1), None), (None, Some (VInt64 42))], [LogError ''row scan: bad row''])"
proof -
  have h1: "Version_query (sample_query ''SELECT b'' 0 []) \<le> 900"
    by (simp add: sample_defs)
  have h2: "QueryRows sample_source (DB (sample_state []))
       (Sqlquery (sample_query ''SELECT b'' 0 []) @
        queryAddon (sample_plugin []) (sample_query ''SELECT b'' 0 []))
     = (Inr \<lparr>rs_columns = Inr [''n''],
              rs_rows = [Row [VInt64 1]] @ ScanError ''bad row'' # [Row [VInt64 3]]\<rparr>, 1)"
    by (simp add: sample_defs queryAddon_def)
  have h3: "rs_columns \<lparr>rs_columns = Inr [''n''],
              rs_rows = [Row [VInt64 1]] @ ScanError ''bad row'' # [Row [VInt64 3]]\<rparr> = Inr [''n'']"
    by simp
  have h4: "rs_rows \<lparr>rs_columns = Inr [''n''],
              rs_rows = [Row [VInt64 1]] @ ScanError ''bad row'' # [Row [VInt64 3]]\<rparr>
            = [Row [VInt64 1]] @ ScanError ''bad row'' # [Row [VInt64 3]]"
    by simp
  have h5: "Scan (ScanError ''bad row'') (columnVars [''n'']) (new_columnMap [''n'']) = Inl ''bad row''"
    by (simp add: Scan_def)
  have c: "accum (gather_query (sample_plugin []) sample_source 900 (sample_query ''SELECT b'' 0 [])
        (sample_state []))
      = accum (acc_rows (sample_plugin [])
          (if Measurement (sample_query ''SELECT b'' 0 []) \<noteq> []
           then Measurement (sample_query ''SELECT b'' 0 []) else ''postgresql'') [''n'']
          [Row [VInt64 1]]
          ((sample_state [])\<lparr>DB := 1,
             AdditionalTags := (if Tagvalue (sample_query ''SELECT b'' 0 []) \<noteq> []
               then Split (Tagvalue (sample_query ''SELECT b'' 0 [])) (CHR '','') else [])\<rparr>))"
    using gather_query_row_scan_error [OF h1 h2 h3 h4 h5] by blast
  have e1: "map (\<lambda>m. m_fields m ''n'')
      (accum (acc_rows (sample_plugin [])
          (if Measurement (sample_query ''SELECT b'' 0 []) \<noteq> []
           then Measurement (sample_query ''SELECT b'' 0 []) else ''postgresql'') [''n'']
          [Row [VInt64 1]]
          ((sample_state [])\<lparr>DB := 1,
             AdditionalTags := (if Tagvalue (sample_query ''SELECT b'' 0 []) \<noteq> []
               then Split (Tagvalue (sample_query ''SELECT b'' 0 [])) (CHR '','') else [])\<rparr>)))
      = [Some (VInt64 1)]"
    by (simp add: accRow_eval sample_defs)
  have e2: "(\<lambda>s. (map (\<lambda>m. (m_fields m ''n'', m_fields m ''value'')) (accum s),
          filter (\<lambda>l. case l of LogError e \<Rightarrow> True | _ \<Rightarrow> False) (logs s)))
     (gather_queries (sample_plugin []) sample_source 900
        [sample_query ''SELECT b'' 0 [], sample_query ''SELECT a'' 0 ''host''] (sample_state []))
   = ([(Some (VInt64 1), None), (None, Some (VInt64 42))], [LogError ''row scan: bad row''])"
    by (simp add: Gather_eval accRow_eval sample_defs)
  show ?thesis using h1 h2 h5 e2 e1 by (simp only: c)
qed

end
